theory Spec2Isabelle
  imports Complex_Main
begin

section \<open>Data model\<close>

text \<open>
  The development embeds the lobby manager (\<^verbatim>\<open>LobbyManager\<close>) and the later of the two
  \<^verbatim>\<open>Game\<close> classes of \<^verbatim>\<open>lobby.manager.ts\<close> (the one with the circle-rectangle collision
  test, the speed ramp and the pause between points).

  JavaScript numbers that hold coordinates, velocities and times are modelled as reals;
  scores and countdown seconds, which the code only ever sets to integers, as \<open>nat\<close> and
  \<open>int\<close>. Record fields keep the source's names, prefixed where two classes share a name
  (\<open>paddle_x\<close> for \<^verbatim>\<open>paddle.x\<close>, \<open>ball_x\<close> for \<^verbatim>\<open>ball.x\<close>, \<open>socket_id\<close> for \<^verbatim>\<open>client.id\<close>,
  \<open>data_id\<close> for \<^verbatim>\<open>client.data.id\<close>).
\<close>

text \<open>
  The enumerations \<^verbatim>\<open>PaddleDirection\<close> and \<^verbatim>\<open>LobbyMode\<close> are not among the sources. The
  engine names the three directions; the manager names the mode \<^verbatim>\<open>Custom\<close>, and the
  other mode is named after the spec.
\<close>

datatype PaddleDirection = UP | DOWN | NONE

datatype LobbyMode = Queued | Custom

text \<open>What a function throws: a \<^verbatim>\<open>TypeError\<close> of the runtime (a property read on
  \<^verbatim>\<open>undefined\<close>), or a \<^verbatim>\<open>WsException\<close> with its message.\<close>

datatype error = TypeError | WsException string

text \<open>
  \<^verbatim>\<open>gameConfig\<close> (\<^verbatim>\<open>src/config/game.config\<close>) is not among the sources: its fields are the
  ones the engine reads, and every function takes the configuration as a parameter.
  \<open>initialBallSpeedPerSecond\<close> is \<^verbatim>\<open>gameConfig.ballSpeedPerSecond\<close>.
\<close>

record gameConfig =
  width :: real
  height :: real
  paddleMargin :: real
  paddleWidth :: real
  paddleHeight :: real
  paddleSpeedPerSecond :: real
  ballRadius :: real
  initialBallSpeedPerSecond :: real
  speedUp :: real
  timeStep :: real
  maxScore :: nat
  pointCountDownDuration :: int

record Paddle =
  paddle_x :: real
  paddle_y :: real
  paddle_width :: real
  paddle_height :: real
  paddle_velocity_y :: real
  direction :: PaddleDirection

record Ball =
  ball_x :: real
  ball_y :: real
  radius :: real
  velocity_x :: real
  velocity_y :: real

text \<open>
  An authenticated socket: its socket id, and the user id and name in its data. The code
  compares sockets by identity (\<^verbatim>\<open>playerQueue.includes(client)\<close>); a socket is its record
  here. The mutable field \<^verbatim>\<open>client.data.lobby\<close> is kept in the manager's state.
\<close>

record client =
  socket_id :: string
  data_id :: string
  data_username :: string

text \<open>A user entity as the user service returns it, with the ids of the users it blocked.\<close>

record UserEntity =
  user_id :: string
  blockedUsers :: "string list"

record MatchEntity =
  match_mode :: LobbyMode
  winner :: UserEntity
  loser :: UserEntity
  winnerScore :: "nat option"
  loserScore :: "nat option"

text \<open>
  The events sent to the sockets of a lobby. The payload of \<open>GameState\<close> carries, for each
  paddle, \<open>(x, y, width, height, velocity.y)\<close>.
\<close>

datatype event =
    GameStart string string gameConfig "real \<times> real" "real \<times> real" "real \<times> real"
  | GameCountdown int
  | GameState "real \<times> real \<times> real \<times> real \<times> real" "real \<times> real \<times> real \<times> real \<times> real" Ball
  | GameScore "nat option" "nat option"
  | GameFinish "string option" "nat option" "nat option"
  | GameMessage string

text \<open>
  The engine. \<open>scores\<close> is the object \<^verbatim>\<open>this.scores\<close>, keyed by user id; a missing key
  stands for \<^verbatim>\<open>undefined\<close> and for the \<^verbatim>\<open>NaN\<close> that \<^verbatim>\<open>undefined++\<close> stores (neither
  equals \<^verbatim>\<open>maxScore\<close>, and \<^verbatim>\<open>++\<close> keeps both).
\<close>

record Game =
  hasStarted :: bool
  hasFinished :: bool
  stop :: bool
  gamePaused :: bool
  scores :: "string \<rightharpoonup> nat"
  paddle1 :: Paddle
  paddle2 :: Paddle
  ball :: Ball
  ballSpeedPerSecond :: real
  ballDirection :: real
  matchEntity :: "MatchEntity option"
  playersReady :: "string \<rightharpoonup> bool"

text \<open>
  A lobby: \<open>players\<close> is the \<^verbatim>\<open>Map\<close> of seated sockets in insertion order, \<open>game\<close> is
  \<^verbatim>\<open>lobby.instance\<close>, and \<open>outbox\<close> records every event sent to a socket of the lobby, one
  entry per receiving socket, oldest first.
\<close>

record Lobby =
  lobby_id :: string
  mode :: LobbyMode
  createdAt :: int
  players :: "client list"
  invitedPlayers :: "string list"
  game :: Game
  outbox :: "(string \<times> event) list"

text \<open>The user service, an external collaborator, as the two lookups the code calls.\<close>

record UserService =
  findOneById :: "string option \<Rightarrow> UserEntity option"
  findOneWithRelations :: "string \<Rightarrow> UserEntity option"

section \<open>The lobby class\<close>

text \<open>
  Modelled from the spec: \<^verbatim>\<open>Lobby.player1\<close> and \<^verbatim>\<open>Lobby.player2\<close> (\<^verbatim>\<open>lobby.ts\<close> is not
  among the sources) are the first and the second seated socket in seating order.
\<close>

definition player1 :: "Lobby \<Rightarrow> client option" where
  "player1 l = (case players l of [] \<Rightarrow> None | c # _ \<Rightarrow> Some c)"

definition player2 :: "Lobby \<Rightarrow> client option" where
  "player2 l = (case players l of c # d # _ \<Rightarrow> Some d | _ \<Rightarrow> None)"

text \<open>
  Modelled from the spec: \<^verbatim>\<open>Lobby.dispatchToLobby\<close> (not among the sources) sends the
  event to every currently seated player.
\<close>

definition dispatchToLobby :: "event \<Rightarrow> Lobby \<Rightarrow> Lobby" where
  "dispatchToLobby ev l = l\<lparr>outbox := outbox l @ map (\<lambda>c. (socket_id c, ev)) (players l)\<rparr>"

section \<open>The simulation engine\<close>

text \<open>
  \<^verbatim>\<open>initializeGameObjects\<close>; \<open>rnd\<close> is the value that \<^verbatim>\<open>Math.random()\<close> returns for the
  launch angle.
\<close>

definition initializeGameObjects :: "gameConfig \<Rightarrow> real \<Rightarrow> Game \<Rightarrow> Game" where
  "initializeGameObjects cfg rnd g =
     (let angle = (rnd * pi) / 4 - pi / 8 in
      g\<lparr>paddle1 := \<lparr>paddle_x = paddleMargin cfg,
                      paddle_y = height cfg / 2 - paddleHeight cfg / 2,
                      paddle_width = paddleWidth cfg,
                      paddle_height = paddleHeight cfg,
                      paddle_velocity_y = 0,
                      direction = NONE\<rparr>,
        paddle2 := \<lparr>paddle_x = width cfg - paddleMargin cfg - paddleWidth cfg,
                      paddle_y = height cfg / 2 - paddleHeight cfg / 2,
                      paddle_width = paddleWidth cfg,
                      paddle_height = paddleHeight cfg,
                      paddle_velocity_y = 0,
                      direction = NONE\<rparr>,
        ball := \<lparr>ball_x = width cfg / 2,
                   ball_y = height cfg / 2,
                   radius = ballRadius cfg,
                   velocity_x = cos angle * ballSpeedPerSecond g * ballDirection g,
                   velocity_y = sin angle * ballSpeedPerSecond g\<rparr>,
        ballDirection := ballDirection g * (- 1),
        ballSpeedPerSecond := ballSpeedPerSecond g + speedUp cfg\<rparr>)"

definition checkPaddleBounds :: "gameConfig \<Rightarrow> Paddle \<Rightarrow> Paddle" where
  "checkPaddleBounds cfg p =
     (if paddle_y p < paddleMargin cfg then p\<lparr>paddle_y := paddleMargin cfg\<rparr>
      else if paddle_y p > height cfg - paddle_height p - paddleMargin cfg
           then p\<lparr>paddle_y := height cfg - paddle_height p - paddleMargin cfg\<rparr>
      else p)"

text \<open>
  \<^verbatim>\<open>updatePaddlePosition\<close> moves and clamps the first paddle, then the second, with the
  same statements; \<open>movePaddleBy\<close> is the movement of one paddle.
\<close>

definition movePaddleBy :: "gameConfig \<Rightarrow> real \<Rightarrow> Paddle \<Rightarrow> Paddle" where
  "movePaddleBy cfg ts p =
     (if direction p = UP then p\<lparr>paddle_y := paddle_y p - paddleSpeedPerSecond cfg * ts\<rparr>
      else if direction p = DOWN then p\<lparr>paddle_y := paddle_y p + paddleSpeedPerSecond cfg * ts\<rparr>
      else p)"

definition updatePaddlePosition :: "gameConfig \<Rightarrow> real \<Rightarrow> Game \<Rightarrow> Game" where
  "updatePaddlePosition cfg ts g =
     g\<lparr>paddle1 := checkPaddleBounds cfg (movePaddleBy cfg ts (paddle1 g)),
       paddle2 := checkPaddleBounds cfg (movePaddleBy cfg ts (paddle2 g))\<rparr>"

definition updateBallPosition :: "real \<Rightarrow> Game \<Rightarrow> Game" where
  "updateBallPosition ts g =
     g\<lparr>ball := (ball g)\<lparr>ball_x := ball_x (ball g) + velocity_x (ball g) * ts,
                         ball_y := ball_y (ball g) + velocity_y (ball g) * ts\<rparr>\<rparr>"

definition ballCollidesWithPaddle :: "Ball \<Rightarrow> Paddle \<Rightarrow> bool" where
  "ballCollidesWithPaddle b p =
     (let halfPaddleWidth = paddle_width p / 2;
          halfPaddleHeight = paddle_height p / 2;
          ballRadius_sq = radius b * radius b;
          distX = ball_x b - (paddle_x p + halfPaddleWidth);
          distY = ball_y b - (paddle_y p + halfPaddleHeight);
          distX_sq = distX * distX;
          distY_sq = distY * distY;
          distWidthRadius = halfPaddleWidth + radius b;
          distHeightRadius = halfPaddleHeight + radius b
      in if distX_sq > distWidthRadius * distWidthRadius
            \<or> distY_sq > distHeightRadius * distHeightRadius then False
         else if distX_sq \<le> halfPaddleWidth * halfPaddleWidth
                 \<or> distY_sq \<le> halfPaddleHeight * halfPaddleHeight then True
         else distX_sq + distY_sq - halfPaddleWidth * halfPaddleWidth
                - halfPaddleHeight * halfPaddleHeight \<le> ballRadius_sq)"

definition handleBallPaddleCollision :: "Paddle \<Rightarrow> Game \<Rightarrow> Game" where
  "handleBallPaddleCollision p g =
     (let normalizedIntersectionY =
            (ball_y (ball g) - (paddle_y p + paddle_height p)) / paddle_height p
      in g\<lparr>ball := (ball g)\<lparr>velocity_x := - velocity_x (ball g),
                            velocity_y := normalizedIntersectionY * ballSpeedPerSecond g\<rparr>\<rparr>)"

text \<open>
  \<^verbatim>\<open>this.scores[id]++\<close>: an entry that holds a number is incremented, a missing one
  stays without a number.
\<close>

definition increment :: "(string \<rightharpoonup> nat) \<Rightarrow> string \<Rightarrow> (string \<rightharpoonup> nat)" where
  "increment m k = (case m k of None \<Rightarrow> m | Some v \<Rightarrow> m(k \<mapsto> Suc v))"

text \<open>\<^verbatim>\<open>this.scores[p?.data.id]\<close> for an optional player \<open>p\<close>.\<close>

definition scoreOf :: "Lobby \<Rightarrow> client option \<Rightarrow> nat option" where
  "scoreOf l p = (case p of None \<Rightarrow> None | Some c \<Rightarrow> scores (game l) (data_id c))"

definition dispatchScore :: "Lobby \<Rightarrow> Lobby" where
  "dispatchScore l =
     dispatchToLobby (GameScore (scoreOf l (player1 l)) (scoreOf l (player2 l))) l"

definition paddleView :: "Paddle \<Rightarrow> real \<times> real \<times> real \<times> real \<times> real" where
  "paddleView p =
     (paddle_x p, paddle_y p, paddle_width p, paddle_height p, paddle_velocity_y p)"

definition sendGameState :: "Lobby \<Rightarrow> Lobby" where
  "sendGameState l =
     dispatchToLobby
       (GameState (paddleView (paddle1 (game l))) (paddleView (paddle2 (game l))) (ball (game l))) l"

definition triggerFinish :: "Lobby \<Rightarrow> Lobby" where
  "triggerFinish l =
     (let l1 = l\<lparr>game := (game l)\<lparr>hasFinished := True\<rparr>\<rparr>;
          w = (case matchEntity (game l1) of None \<Rightarrow> None | Some m \<Rightarrow> Some (user_id (winner m)))
      in dispatchToLobby (GameFinish w (scoreOf l1 (player1 l1)) (scoreOf l1 (player2 l1))) l1)"

text \<open>
  \<^verbatim>\<open>setLoser\<close> looks both users up (\<^verbatim>\<open>getUserById\<close> throws when the service finds none)
  and stores the match record the repository creates. A throw is the first component of
  the result; the lobby returned with it is the state the throw leaves behind.
\<close>

definition setLoser :: "UserService \<Rightarrow> string \<Rightarrow> Lobby \<Rightarrow> error option \<times> Lobby" where
  "setLoser us playerId l =
     (let winnerId = (if Some playerId = map_option data_id (player1 l)
                      then map_option data_id (player2 l)
                      else map_option data_id (player1 l))
      in case findOneById us winnerId of
           None \<Rightarrow> (Some (WsException ''User not found''), l)
         | Some w \<Rightarrow>
            (case findOneById us (Some playerId) of
               None \<Rightarrow> (Some (WsException ''User not found''), l)
             | Some lo \<Rightarrow>
                (None, l\<lparr>game := (game l)\<lparr>matchEntity :=
                   Some \<lparr>match_mode = mode l, winner = w, loser = lo,
                         winnerScore = scores (game l) (user_id w),
                         loserScore = scores (game l) (user_id lo)\<rparr>\<rparr>\<rparr>)))"

definition checkGameFinish :: "UserService \<Rightarrow> gameConfig \<Rightarrow> Lobby \<Rightarrow> error option \<times> Lobby" where
  "checkGameFinish us cfg l =
     (case player1 l of
        None \<Rightarrow> (Some TypeError, l)
      | Some p1 \<Rightarrow>
         if scores (game l) (data_id p1) = Some (maxScore cfg)
         then (let l1 = l\<lparr>game := (game l)\<lparr>hasFinished := True\<rparr>\<rparr>
               in case player2 l1 of
                    None \<Rightarrow> (Some TypeError, l1)
                  | Some p2 \<Rightarrow> setLoser us (data_id p2) l1)
         else (case player2 l of
                 None \<Rightarrow> (Some TypeError, l)
               | Some p2 \<Rightarrow>
                  if scores (game l) (data_id p2) = Some (maxScore cfg)
                  then setLoser us (data_id p1) (l\<lparr>game := (game l)\<lparr>hasFinished := True\<rparr>\<rparr>)
                  else (None, l)))"

text \<open>\<open>rnd\<close> is the value \<^verbatim>\<open>Math.random()\<close> returns inside \<^verbatim>\<open>initializeGameObjects\<close>.\<close>

definition handleScreenBoundsCollision ::
  "UserService \<Rightarrow> gameConfig \<Rightarrow> real \<Rightarrow> Lobby \<Rightarrow> error option \<times> Lobby" where
  "handleScreenBoundsCollision us cfg rnd l =
     (case (if ball_x (ball (game l)) \<le> radius (ball (game l)) then player2 l else player1 l) of
        None \<Rightarrow> (Some TypeError, l)
      | Some p \<Rightarrow>
         (let l1 = l\<lparr>game := (game l)\<lparr>scores := increment (scores (game l)) (data_id p)\<rparr>\<rparr>;
              l2 = l1\<lparr>game := initializeGameObjects cfg rnd (game l1)\<rparr>;
              l3 = dispatchScore l2
          in case checkGameFinish us cfg l3 of
               (Some e, l4) \<Rightarrow> (Some e, l4)
             | (None, l4) \<Rightarrow>
                if hasFinished (game l4) then (None, l4)
                else (None, l4\<lparr>game := (game l4)\<lparr>gamePaused := True\<rparr>\<rparr>)))"

text \<open>
  \<^verbatim>\<open>handleCollisions\<close> is two statements: the paddle test and the wall test. Each is a
  definition of its own here, and \<open>handleCollisions\<close> runs one after the other.
\<close>

definition handleCollisions_paddles :: "Game \<Rightarrow> Game" where
  "handleCollisions_paddles g =
     (if velocity_x (ball g) < 0 \<and> ballCollidesWithPaddle (ball g) (paddle1 g)
      then handleBallPaddleCollision (paddle1 g) g
      else if velocity_x (ball g) > 0 \<and> ballCollidesWithPaddle (ball g) (paddle2 g)
      then handleBallPaddleCollision (paddle2 g) g
      else g)"

definition handleCollisions_walls ::
  "UserService \<Rightarrow> gameConfig \<Rightarrow> real \<Rightarrow> Lobby \<Rightarrow> error option \<times> Lobby" where
  "handleCollisions_walls us cfg rnd l =
     (let b = ball (game l) in
      if ball_y b \<le> radius b \<or> ball_y b \<ge> height cfg - radius b
      then (None, l\<lparr>game := (game l)\<lparr>ball := b\<lparr>velocity_y := - velocity_y b\<rparr>\<rparr>\<rparr>)
      else if ball_x b \<le> radius b \<or> ball_x b \<ge> width cfg - radius b
      then handleScreenBoundsCollision us cfg rnd l
      else (None, l))"

definition handleCollisions ::
  "UserService \<Rightarrow> gameConfig \<Rightarrow> real \<Rightarrow> Lobby \<Rightarrow> error option \<times> Lobby" where
  "handleCollisions us cfg rnd l =
     handleCollisions_walls us cfg rnd (l\<lparr>game := handleCollisions_paddles (game l)\<rparr>)"

definition updateGameState ::
  "UserService \<Rightarrow> gameConfig \<Rightarrow> real \<Rightarrow> real \<Rightarrow> Lobby \<Rightarrow> error option \<times> Lobby" where
  "updateGameState us cfg rnd ts l =
     handleCollisions us cfg rnd
       (l\<lparr>game := updateBallPosition ts (updatePaddlePosition cfg ts (game l))\<rparr>)"

subsection \<open>The countdown\<close>

text \<open>
  \<^verbatim>\<open>countDown\<close> sends the first countdown event at once and then runs an interval timer.
  The variables its closure holds are the record \<open>CountDown\<close>: \<open>cleared\<close> says that
  \<^verbatim>\<open>clearInterval\<close> was called, \<open>resolved\<close> that the promise was resolved.
  \<open>countDownStart\<close> is the synchronous part, \<open>countDownTick\<close> one run of the interval's
  callback (a cleared interval never runs it again), and \<open>countDownLoop\<close> runs callbacks
  until the interval is cleared, with nothing else running in between.
\<close>

record CountDown =
  remainingSeconds :: int
  cleared :: bool
  resolved :: bool

definition emitCountdown :: "int \<Rightarrow> Lobby \<Rightarrow> Lobby" where
  "emitCountdown n l = l\<lparr>outbox := outbox l @ map (\<lambda>c. (socket_id c, GameCountdown n)) (players l)\<rparr>"

definition countDownStart :: "int \<Rightarrow> Lobby \<Rightarrow> CountDown \<times> Lobby" where
  "countDownStart seconds l =
     (\<lparr>remainingSeconds = seconds - 1, cleared = False, resolved = False\<rparr>,
      emitCountdown seconds l)"

definition countDownTick :: "CountDown \<Rightarrow> Lobby \<Rightarrow> CountDown \<times> Lobby" where
  "countDownTick cd l =
     (if cleared cd then (cd, l)
      else if remainingSeconds cd \<le> 0
      then (cd\<lparr>cleared := True, resolved := True\<rparr>, emitCountdown 0 l)
      else (let cd1 = (if stop (game l) then cd\<lparr>cleared := True, resolved := True\<rparr> else cd)
            in (cd1\<lparr>remainingSeconds := remainingSeconds cd1 - 1\<rparr>,
                emitCountdown (remainingSeconds cd1) l)))"

function countDownLoop :: "CountDown \<Rightarrow> Lobby \<Rightarrow> Lobby" where
  "countDownLoop cd l =
     (if cleared cd then l
      else countDownLoop (fst (countDownTick cd l)) (snd (countDownTick cd l)))"
  by pat_completeness auto
termination
  by (relation "measure (\<lambda>(cd, l). if cleared cd then 0 else nat (remainingSeconds cd) + 1)")
     (auto simp: countDownTick_def Let_def)

declare countDownLoop.simps [simp del]

definition countDown :: "int \<Rightarrow> Lobby \<Rightarrow> Lobby" where
  "countDown seconds l = countDownLoop (fst (countDownStart seconds l)) (snd (countDownStart seconds l))"

subsection \<open>Calls that reach the engine from outside its loop\<close>

text \<open>
  While the engine awaits a countdown, other calls run between the callbacks of the
  interval: \<^verbatim>\<open>movePaddle\<close>, and the calls by which the manager reaches the engine,
  \<^verbatim>\<open>leaveLobby\<close> (or \<^verbatim>\<open>leaveLobbyOrThrow\<close>) and \<^verbatim>\<open>cleanUpLobbies\<close>.
\<close>

text \<open>\<^verbatim>\<open>movePaddle\<close> with \<^verbatim>\<open>getPaddle\<close>, which compares socket ids.\<close>

definition movePaddle :: "client \<Rightarrow> PaddleDirection \<Rightarrow> Lobby \<Rightarrow> error option \<times> Lobby" where
  "movePaddle c d l =
     (case player1 l of
        None \<Rightarrow> (Some TypeError, l)
      | Some p1 \<Rightarrow>
         if socket_id c = socket_id p1
         then (None, l\<lparr>game := (game l)\<lparr>paddle1 := (paddle1 (game l))\<lparr>direction := d\<rparr>\<rparr>\<rparr>)
         else (case player2 l of
                 None \<Rightarrow> (Some TypeError, l)
               | Some p2 \<Rightarrow>
                  if socket_id c = socket_id p2
                  then (None, l\<lparr>game := (game l)\<lparr>paddle2 := (paddle2 (game l))\<lparr>direction := d\<rparr>\<rparr>\<rparr>)
                  else (Some (WsException ''Paddle not found''), l)))"

text \<open>\<^verbatim>\<open>Map.delete\<close> on the seat map, keyed by socket id.\<close>

definition seatDelete :: "client \<Rightarrow> client list \<Rightarrow> client list" where
  "seatDelete c cs = filter (\<lambda>d. socket_id d \<noteq> socket_id c) cs"

text \<open>
  Modelled from the spec: \<^verbatim>\<open>sendEvent\<close> (\<^verbatim>\<open>src/shared/websocket\<close> is not among the
  sources) sends the event to each of the given sockets. The manager calls it with the
  sockets of one lobby, and the events are recorded in that lobby's outbox.
\<close>

definition sendEvent :: "string list \<Rightarrow> event \<Rightarrow> Lobby \<Rightarrow> Lobby" where
  "sendEvent socketsIds ev l = l\<lparr>outbox := outbox l @ map (\<lambda>s. (s, ev)) socketsIds\<rparr>"

text \<open>
  What \<^verbatim>\<open>leaveLobby\<close> and \<^verbatim>\<open>cleanUpLobbies\<close> do to the lobby object they act on: the seat
  is freed and the others are told, or the lobby is told of the timeout; then
  \<^verbatim>\<open>triggerFinish\<close> runs.
\<close>

definition leaveEffect :: "client \<Rightarrow> Lobby \<Rightarrow> Lobby" where
  "leaveEffect c l =
     (let l1 = l\<lparr>players := seatDelete c (players l)\<rparr>;
          l2 = sendEvent (map socket_id (players l1))
                 (GameMessage (data_username c @ '' left the lobby'')) l1
      in triggerFinish l2)"

definition expireEffect :: "Lobby \<Rightarrow> Lobby" where
  "expireEffect l = triggerFinish (dispatchToLobby (GameMessage ''Game timed out'') l)"

datatype external_call = MoveCall client PaddleDirection | LeaveCall client | ExpireCall

fun externalCall :: "external_call \<Rightarrow> Lobby \<Rightarrow> Lobby" where
  "externalCall (MoveCall c d) l = snd (movePaddle c d l)"
| "externalCall (LeaveCall c) l = leaveEffect c l"
| "externalCall ExpireCall l = expireEffect l"

text \<open>The calls that run \<^verbatim>\<open>triggerFinish\<close>.\<close>

fun finishing :: "external_call \<Rightarrow> bool" where
  "finishing (MoveCall c d) = False"
| "finishing (LeaveCall c) = True"
| "finishing ExpireCall = True"

text \<open>
  The countdown as the loop awaits it. The first argument says what arrives during the
  await: its first element is the list of calls that run before the first callback of
  the interval, its second element the calls before the second callback, and so on; when
  it has run out, no further call arrives. The call of \<^verbatim>\<open>triggerFinish\<close> does not stop
  the interval, which tests the stop flag only. The await ends with the callback that
  clears the interval and resolves the promise.
\<close>

fun countDownAwait :: "external_call list list \<Rightarrow> CountDown \<Rightarrow> Lobby \<Rightarrow> Lobby" where
  "countDownAwait [] cd l = countDownLoop cd l"
| "countDownAwait (calls # later) cd l =
     (if cleared cd then l
      else (let l1 = foldl (\<lambda>l c. externalCall c l) l calls
            in countDownAwait later (fst (countDownTick cd l1)) (snd (countDownTick cd l1))))"

definition countDownWith :: "int \<Rightarrow> external_call list list \<Rightarrow> Lobby \<Rightarrow> Lobby" where
  "countDownWith seconds arriving l =
     countDownAwait arriving (fst (countDownStart seconds l)) (snd (countDownStart seconds l))"

subsection \<open>The step loop\<close>

text \<open>
  \<open>loopBody\<close> is one iteration of the \<^verbatim>\<open>while\<close> loop of \<^verbatim>\<open>gameLoop\<close>: one fixed time step.
  Its input is the random draw the iteration may consume and the calls that arrive while
  it awaits the countdown between two points. An exception leaves the loop with the
  state it was thrown in.
\<close>

type_synonym iteration = "real \<times> external_call list list"

definition loopBody ::
  "UserService \<Rightarrow> gameConfig \<Rightarrow> iteration \<Rightarrow> Lobby \<Rightarrow> error option \<times> Lobby" where
  "loopBody us cfg it l =
     (case updateGameState us cfg (fst it) (timeStep cfg) l of
        (Some e, l1) \<Rightarrow> (Some e, l1)
      | (None, l1) \<Rightarrow>
         (let l2 = (if gamePaused (game l1)
                    then (let l' = countDownWith (pointCountDownDuration cfg) (snd it) l1
                          in l'\<lparr>game := (game l')\<lparr>gamePaused := False\<rparr>\<rparr>)
                    else l1)
          in if hasFinished (game l2) then (None, triggerFinish l2)
             else (None, sendGameState l2)))"

text \<open>
  The clock (\<^verbatim>\<open>performance.now\<close>, the accumulator) decides only how many iterations one
  call of \<^verbatim>\<open>gameLoop\<close> makes. Here the caller gives that number as the length of a list,
  whose elements are the inputs of the iterations. The loop is left when the game has
  finished or an exception was thrown.
\<close>

fun whileLoop ::
  "UserService \<Rightarrow> gameConfig \<Rightarrow> iteration list \<Rightarrow> Lobby \<Rightarrow> error option \<times> Lobby" where
  "whileLoop us cfg [] l = (None, l)"
| "whileLoop us cfg (it # its) l =
     (case loopBody us cfg it l of
        (Some e, l1) \<Rightarrow> (Some e, l1)
      | (None, l1) \<Rightarrow> if hasFinished (game l1) then (None, l1) else whileLoop us cfg its l1)"

definition gameLoop ::
  "UserService \<Rightarrow> gameConfig \<Rightarrow> iteration list \<Rightarrow> Lobby \<Rightarrow> error option \<times> Lobby" where
  "gameLoop us cfg its l =
     (if hasFinished (game l) \<or> stop (game l) then (None, l) else whileLoop us cfg its l)"

text \<open>
  \<^verbatim>\<open>triggerStart\<close> up to the call of \<^verbatim>\<open>roundManager\<close>, which only schedules \<^verbatim>\<open>gameLoop\<close>.
  \<open>COUNT_DOWN_TIME\<close> (\<^verbatim>\<open>../constants\<close>, not among the sources) is a parameter. The
  \<^verbatim>\<open>catch\<close> clause rethrows any exception as a \<^verbatim>\<open>WsException\<close> with the same message.
  The countdown before the first point is \<open>countDown\<close>: no call arrives while it is
  awaited.
\<close>

definition zeroScores :: "client list \<Rightarrow> (string \<rightharpoonup> nat) \<Rightarrow> (string \<rightharpoonup> nat)" where
  "zeroScores cs m = foldl (\<lambda>m c. m(data_id c \<mapsto> 0)) m cs"

definition triggerStart ::
  "gameConfig \<Rightarrow> int \<Rightarrow> real \<Rightarrow> Lobby \<Rightarrow> error option \<times> Lobby" where
  "triggerStart cfg COUNT_DOWN_TIME rnd l =
     (let g1 = initializeGameObjects cfg rnd (game l);
          g2 = g1\<lparr>playersReady := Map.empty, scores := zeroScores (players l) (scores g1)\<rparr>;
          l2 = l\<lparr>game := g2\<rparr>
      in case (player1 l2, player2 l2) of
           (Some p1, Some p2) \<Rightarrow>
             (let l3 = dispatchToLobby
                         (GameStart (data_id p1) (data_id p2) cfg
                            (paddle_x (paddle1 g2), paddle_y (paddle1 g2))
                            (paddle_x (paddle2 g2), paddle_y (paddle2 g2))
                            (ball_x (ball g2), ball_y (ball g2))) l2;
                  l4 = countDown COUNT_DOWN_TIME l3
              in if stop (game l4) then (None, l4)
                 else (None, l4\<lparr>game := (game l4)\<lparr>hasStarted := True\<rparr>\<rparr>))
         | _ \<Rightarrow> (Some (WsException ''TypeError''), l2))"

subsection \<open>A new engine\<close>

text \<open>
  The field initialisers of \<^verbatim>\<open>Game\<close>. \<open>dir\<close> is the value (\<open>1\<close> or \<open>-1\<close>) that
  \<^verbatim>\<open>Math.random() > 0.5 ? 1 : -1\<close> gives. The paddles and the ball are unset
  until \<^verbatim>\<open>initializeGameObjects\<close> runs; the records of zeros stand for that.
\<close>

definition unsetPaddle :: Paddle where
  "unsetPaddle = \<lparr>paddle_x = 0, paddle_y = 0, paddle_width = 0, paddle_height = 0,
                   paddle_velocity_y = 0, direction = NONE\<rparr>"

definition unsetBall :: Ball where
  "unsetBall = \<lparr>ball_x = 0, ball_y = 0, radius = 0, velocity_x = 0, velocity_y = 0\<rparr>"

definition newGame :: "gameConfig \<Rightarrow> real \<Rightarrow> Game" where
  "newGame cfg dir =
     \<lparr>hasStarted = False, hasFinished = False, stop = False, gamePaused = False,
      scores = Map.empty, paddle1 = unsetPaddle, paddle2 = unsetPaddle, ball = unsetBall,
      ballSpeedPerSecond = initialBallSpeedPerSecond cfg, ballDirection = dir,
      matchEntity = None, playersReady = Map.empty\<rparr>"

section \<open>The lobby manager\<close>

text \<open>
  Lobbies are objects that the registry \<^verbatim>\<open>this.lobbies\<close> and the sockets
  (\<^verbatim>\<open>client.data.lobby\<close>) both refer to, so the state holds a store of lobby objects
  addressed by lobby id (\<open>heap\<close>), the registry as the list of registered ids in
  insertion order (\<open>lobbies\<close>), and the back-reference of every socket as a map from
  socket ids to lobby ids (\<open>dataLobby\<close>). \<open>chatOutbox\<close> records the invite notifications
  handed to the chat gateway: receiving user, inviting user, lobby.
\<close>

record LobbyManager =
  playerQueue :: "client list"
  lobbies :: "string list"
  heap :: "string \<rightharpoonup> Lobby"
  dataLobby :: "string \<rightharpoonup> string"
  chatOutbox :: "(string \<times> string \<times> string) list"

text \<open>
  Modelled from the spec: \<^verbatim>\<open>MAX_PLAYERS\<close> (\<^verbatim>\<open>../constants\<close> is not among the sources) is
  the number of seats of a session, 2.
\<close>

definition MAX_PLAYERS :: nat where
  "MAX_PLAYERS = 2"

text \<open>
  Modelled from the spec: \<^verbatim>\<open>userIdInList\<close> (\<^verbatim>\<open>src/shared/list\<close> is not among the sources)
  says whether a list of users holds a user with the given id. Lists of users are lists
  of their ids here.
\<close>

definition userIdInList :: "string list \<Rightarrow> string \<Rightarrow> bool" where
  "userIdInList us uid = (uid \<in> set us)"

text \<open>
  Modelled from the spec: the constructor of \<^verbatim>\<open>Lobby\<close> (\<^verbatim>\<open>lobby.ts\<close> is not among the
  sources) makes an empty lobby with a generated id, the creation time and its one
  engine; a lobby made without a mode, as matchmaking does, is in Queued mode. The
  generated id, the time and the engine's first ball direction are the record
  \<open>creation\<close>, given by the caller.
\<close>

record creation =
  new_id :: string
  new_createdAt :: int
  new_ballDirection :: real

definition newLobby :: "gameConfig \<Rightarrow> creation \<Rightarrow> LobbyMode \<Rightarrow> Lobby" where
  "newLobby cfg cr m =
     \<lparr>lobby_id = new_id cr, mode = m, createdAt = new_createdAt cr, players = [],
      invitedPlayers = [], game = newGame cfg (new_ballDirection cr), outbox = []\<rparr>"

definition defaultMode :: LobbyMode where
  "defaultMode = Queued"

text \<open>\<open>onLobby lid f\<close> runs a method \<open>f\<close> on the lobby object at \<open>lid\<close>.\<close>

definition onLobby :: "string \<Rightarrow> (Lobby \<Rightarrow> Lobby) \<Rightarrow> LobbyManager \<Rightarrow> LobbyManager" where
  "onLobby lid f st =
     (case heap st lid of None \<Rightarrow> st | Some l \<Rightarrow> st\<lparr>heap := (heap st)(lid \<mapsto> f l)\<rparr>)"

text \<open>\<^verbatim>\<open>Map.set\<close> on the seat map, keyed by socket id.\<close>

definition seatSet :: "client \<Rightarrow> client list \<Rightarrow> client list" where
  "seatSet c cs =
     (if socket_id c \<in> socket_id ` set cs
      then map (\<lambda>d. if socket_id d = socket_id c then c else d) cs
      else cs @ [c])"

text \<open>
  Modelled from the spec: \<^verbatim>\<open>Lobby.addPlayer\<close> (not among the sources) inserts the socket
  into the seat map and stores the back-reference on the socket's data;
  \<^verbatim>\<open>Lobby.removePlayer\<close> removes the socket from the seat map and clears the
  back-reference, and does not touch the engine.
\<close>

definition addPlayer :: "string \<Rightarrow> client \<Rightarrow> LobbyManager \<Rightarrow> LobbyManager" where
  "addPlayer lid c st =
     (onLobby lid (\<lambda>l. l\<lparr>players := seatSet c (players l)\<rparr>) st)
       \<lparr>dataLobby := (dataLobby st)(socket_id c \<mapsto> lid)\<rparr>"

definition removePlayer :: "string \<Rightarrow> client \<Rightarrow> LobbyManager \<Rightarrow> LobbyManager" where
  "removePlayer lid c st =
     (onLobby lid (\<lambda>l. l\<lparr>players := seatDelete c (players l)\<rparr>) st)
       \<lparr>dataLobby := (dataLobby st)(socket_id c := None)\<rparr>"

text \<open>\<^verbatim>\<open>client.data.lobby\<close>, \<^verbatim>\<open>this.lobbies.get\<close>, \<^verbatim>\<open>this.lobbies.set\<close>, \<^verbatim>\<open>this.lobbies.delete\<close>
  and \<^verbatim>\<open>this.lobbies.values()\<close>.\<close>

definition clientLobby :: "LobbyManager \<Rightarrow> client \<Rightarrow> Lobby option" where
  "clientLobby st c = (case dataLobby st (socket_id c) of None \<Rightarrow> None | Some lid \<Rightarrow> heap st lid)"

definition lobbiesGet :: "LobbyManager \<Rightarrow> string \<Rightarrow> Lobby option" where
  "lobbiesGet st lid = (if lid \<in> set (lobbies st) then heap st lid else None)"

definition lobbiesSet :: "Lobby \<Rightarrow> LobbyManager \<Rightarrow> LobbyManager" where
  "lobbiesSet l st =
     st\<lparr>lobbies := (if lobby_id l \<in> set (lobbies st) then lobbies st
                     else lobbies st @ [lobby_id l]),
        heap := (heap st)(lobby_id l \<mapsto> l)\<rparr>"

definition lobbiesDelete :: "string \<Rightarrow> LobbyManager \<Rightarrow> LobbyManager" where
  "lobbiesDelete lid st = st\<lparr>lobbies := removeAll lid (lobbies st)\<rparr>"

definition lobbiesValues :: "LobbyManager \<Rightarrow> Lobby list" where
  "lobbiesValues st =
     concat (map (\<lambda>lid. case heap st lid of None \<Rightarrow> [] | Some l \<Rightarrow> [l]) (lobbies st))"

definition seatedSockets :: "LobbyManager \<Rightarrow> string \<Rightarrow> string list" where
  "seatedSockets st lid = (case heap st lid of None \<Rightarrow> [] | Some l \<Rightarrow> map socket_id (players l))"

definition leaveLobbyOrThrow :: "LobbyManager \<Rightarrow> client \<Rightarrow> error option \<times> LobbyManager" where
  "leaveLobbyOrThrow st c =
     (case clientLobby st c of
        None \<Rightarrow> (Some (WsException ''You are not in a lobby''), st)
      | Some cl \<Rightarrow>
         (case lobbiesGet st (lobby_id cl) of
            None \<Rightarrow> (Some (WsException ''Lobby not found''), st)
          | Some l \<Rightarrow>
             if socket_id c \<notin> socket_id ` set (players l)
             then (Some (WsException ''You are not in this lobby''), st)
             else (let lid = lobby_id l;
                       st1 = removePlayer lid c st;
                       socketsIds = seatedSockets st1 lid;
                       st2 = onLobby lid
                               (sendEvent socketsIds
                                  (GameMessage (data_username c @ '' left the lobby''))) st1;
                       st3 = onLobby lid triggerFinish st2
                   in if length (seatedSockets st3 lid) = 0
                      then (None, lobbiesDelete lid st3)
                      else (None, st3))))"

definition leaveLobby :: "LobbyManager \<Rightarrow> client \<Rightarrow> LobbyManager" where
  "leaveLobby st c =
     (case clientLobby st c of
        None \<Rightarrow> st
      | Some cl \<Rightarrow>
         (case lobbiesGet st (lobby_id cl) of
            None \<Rightarrow> st
          | Some l \<Rightarrow>
             if socket_id c \<notin> socket_id ` set (players l) then st
             else (let lid = lobby_id l;
                       st1 = removePlayer lid c st;
                       socketsIds = seatedSockets st1 lid;
                       st2 = onLobby lid
                               (sendEvent socketsIds
                                  (GameMessage (data_username c @ '' left the lobby''))) st1;
                       st3 = onLobby lid triggerFinish st2
                   in if length (seatedSockets st3 lid) = 0
                      then lobbiesDelete lid st3
                      else st3)))"

definition inviteToLobby ::
  "UserService \<Rightarrow> LobbyManager \<Rightarrow> client \<Rightarrow> string \<Rightarrow> error option \<times> LobbyManager" where
  "inviteToLobby us st c userId =
     (if data_id c = userId then (Some (WsException ''You cannot invite yourself''), st)
      else case clientLobby st c of
        None \<Rightarrow> (Some (WsException ''You are not in a lobby''), st)
      | Some l \<Rightarrow>
         if length (players l) \<ge> MAX_PLAYERS
         then (Some (WsException ''Lobby already full''), st)
         else if userId \<in> socket_id ` set (players l)
         then (Some (WsException ''User already in this lobby''), st)
         else if userId \<in> set (invitedPlayers l)
         then (Some (WsException ''User already invited''), st)
         else (case findOneWithRelations us userId of
                 None \<Rightarrow> (Some (WsException ''User not found''), st)
               | Some user \<Rightarrow>
                  if userIdInList (blockedUsers user) (data_id c)
                  then (Some (WsException ''You cannot invite this user''), st)
                  else (None,
                        (onLobby (lobby_id l)
                           (\<lambda>l. l\<lparr>invitedPlayers := invitedPlayers l @ [user_id user]\<rparr>) st)
                          \<lparr>chatOutbox := chatOutbox st @ [(user_id user, data_id c, lobby_id l)]\<rparr>)))"

definition inviteToLobbyThroughChat ::
  "LobbyManager \<Rightarrow> UserEntity \<Rightarrow> string \<Rightarrow> (error + string) \<times> LobbyManager" where
  "inviteToLobbyThroughChat st user invitedUserId =
     (if user_id user = invitedUserId then (Inl (WsException ''You cannot invite yourself''), st)
      else case find (\<lambda>currentLobby. list_ex (\<lambda>player. data_id player = user_id user)
                                       (players currentLobby)) (lobbiesValues st) of
        None \<Rightarrow> (Inl (WsException ''You are not in a lobby''), st)
      | Some l \<Rightarrow>
         if length (players l) \<ge> MAX_PLAYERS
         then (Inl (WsException ''Lobby already full''), st)
         else if invitedUserId \<in> socket_id ` set (players l)
         then (Inl (WsException ''User already in this lobby''), st)
         else if invitedUserId \<in> set (invitedPlayers l)
         then (Inl (WsException ''User already invited''), st)
         else if userIdInList (blockedUsers user) (user_id user)
         then (Inl (WsException ''You cannot invite this user''), st)
         else (Inr (lobby_id l),
               onLobby (lobby_id l)
                 (\<lambda>l. l\<lparr>invitedPlayers := invitedPlayers l @ [user_id user]\<rparr>) st))"

subsection \<open>The queue\<close>

definition tryToCreateLobby :: "gameConfig \<Rightarrow> creation \<Rightarrow> LobbyManager \<Rightarrow> LobbyManager" where
  "tryToCreateLobby cfg cr st =
     (if length (playerQueue st) < MAX_PLAYERS then st
      else (let lobby = newLobby cfg cr defaultMode;
                st1 = lobbiesSet lobby st;
                spliced = take MAX_PLAYERS (playerQueue st1);
                st2 = st1\<lparr>playerQueue := drop MAX_PLAYERS (playerQueue st1)\<rparr>
            in foldl (\<lambda>s client. addPlayer (lobby_id lobby) client s) st2 spliced))"

definition addPlayerToQueue ::
  "gameConfig \<Rightarrow> creation \<Rightarrow> LobbyManager \<Rightarrow> client \<Rightarrow> error option \<times> LobbyManager" where
  "addPlayerToQueue cfg cr st c =
     (if clientLobby st c \<noteq> None
      then (Some (WsException ''You are already in a lobby, leave it first''), st)
      else if c \<in> set (playerQueue st)
      then (Some (WsException ''You are already in queue''), st)
      else (None, tryToCreateLobby cfg cr (st\<lparr>playerQueue := playerQueue st @ [c]\<rparr>)))"

subsection \<open>Expiry\<close>



section \<open>Properties and sample data\<close>

text \<open>The bounds of a paddle's vertical position.\<close>

definition paddleInBounds :: "gameConfig \<Rightarrow> Paddle \<Rightarrow> bool" where
  "paddleInBounds cfg p =
     (paddleMargin cfg \<le> paddle_y p
      \<and> paddle_y p \<le> height cfg - paddleHeight cfg - paddleMargin cfg)"

text \<open>A configuration, two sockets, a user service that knows every user, and a lobby of
  the two sockets, for the examples.\<close>

definition cfg0 :: gameConfig where
  "cfg0 = \<lparr>width = 800, height = 600, paddleMargin = 10, paddleWidth = 10, paddleHeight = 100,
            paddleSpeedPerSecond = 300, ballRadius = 8, initialBallSpeedPerSecond = 400,
            speedUp = 20, timeStep = 1 / 50, maxScore = 2, pointCountDownDuration = 3\<rparr>"

definition alice :: client where
  "alice = \<lparr>socket_id = ''sa'', data_id = ''alice'', data_username = ''Alice''\<rparr>"

definition bob :: client where
  "bob = \<lparr>socket_id = ''sb'', data_id = ''bob'', data_username = ''Bob''\<rparr>"

definition carol :: client where
  "carol = \<lparr>socket_id = ''sc'', data_id = ''carol'', data_username = ''Carol''\<rparr>"

definition us0 :: UserService where
  "us0 = \<lparr>findOneById = (\<lambda>i. case i of None \<Rightarrow> None
                                     | Some u \<Rightarrow> Some \<lparr>user_id = u, blockedUsers = []\<rparr>),
           findOneWithRelations = (\<lambda>u. Some \<lparr>user_id = u, blockedUsers = []\<rparr>)\<rparr>"

definition lobby0 :: Lobby where
  "lobby0 = (newLobby cfg0 \<lparr>new_id = ''L1'', new_createdAt = 0, new_ballDirection = 1\<rparr> Queued)
              \<lparr>players := [alice, bob]\<rparr>"

text \<open>The lobby after \<^verbatim>\<open>initializeGameObjects\<close>, with the first paddle moving up.\<close>

definition lobbyUp :: Lobby where
  "lobbyUp = lobby0\<lparr>game := (let g = initializeGameObjects cfg0 (1 / 2) (game lobby0)
                              in g\<lparr>paddle1 := (paddle1 g)\<lparr>direction := UP\<rparr>\<rparr>)\<rparr>"

text \<open>A ball that meets the first paddle at the paddle's vertical centre while moving left,
  and a ball at the top wall.\<close>

definition lobbyHit :: Lobby where
  "lobbyHit = lobbyUp\<lparr>game := (game lobbyUp)\<lparr>ball :=
       \<lparr>ball_x = 22, ball_y = 300, radius = 8, velocity_x = - 400, velocity_y = 30\<rparr>\<rparr>\<rparr>"

definition lobbyTop :: Lobby where
  "lobbyTop = lobbyUp\<lparr>game := (game lobbyUp)\<lparr>ball :=
       \<lparr>ball_x = 400, ball_y = 5, radius = 8, velocity_x = 300, velocity_y = - 120\<rparr>\<rparr>\<rparr>"

text \<open>A configuration with a time step of one second and a match of one point, and the
  lobby of the two sockets after \<^verbatim>\<open>triggerStart\<close> with a countdown of one second.\<close>

definition cfg1 :: gameConfig where
  "cfg1 = cfg0\<lparr>timeStep := 1, maxScore := 1\<rparr>"

definition lobby1 :: Lobby where
  "lobby1 = (newLobby cfg1 \<lparr>new_id = ''L1'', new_createdAt = 0, new_ballDirection = 1\<rparr> Queued)
              \<lparr>players := [alice, bob]\<rparr>"

definition started1 :: Lobby where
  "started1 = snd (triggerStart cfg1 1 (1 / 2) lobby1)"

subsection \<open>Runs of the engine\<close>

text \<open>
  A run of a started engine is a sequence of calls: \<^verbatim>\<open>gameLoop\<close> with the inputs of
  its iterations, \<^verbatim>\<open>movePaddle\<close>, a leave and an expiry. \<open>external\<close> says that
  \<^verbatim>\<open>triggerFinish\<close> is called from outside the loop: by a leave or an expiry between two
  calls of the loop, or by one that arrives while the loop awaits a countdown.
\<close>

datatype engine_input =
  Loop "iteration list" | Move client PaddleDirection | Leave client | Expire

fun engineStep :: "UserService \<Rightarrow> gameConfig \<Rightarrow> engine_input \<Rightarrow> Lobby \<Rightarrow> Lobby" where
  "engineStep us cfg (Loop its) l = snd (gameLoop us cfg its l)"
| "engineStep us cfg (Move c d) l = snd (movePaddle c d l)"
| "engineStep us cfg (Leave c) l = leaveEffect c l"
| "engineStep us cfg Expire l = expireEffect l"

definition engineRun :: "UserService \<Rightarrow> gameConfig \<Rightarrow> engine_input list \<Rightarrow> Lobby \<Rightarrow> Lobby" where
  "engineRun us cfg ins l = foldl (\<lambda>l i. engineStep us cfg i l) l ins"

definition quiet :: "external_call list list \<Rightarrow> bool" where
  "quiet arriving = (\<not> list_ex (list_ex finishing) arriving)"

fun external :: "engine_input \<Rightarrow> bool" where
  "external (Loop its) = list_ex (\<lambda>it. \<not> quiet (snd it)) its"
| "external (Move c d) = False"
| "external (Leave c) = True"
| "external Expire = True"

text \<open>No score is above \<^verbatim>\<open>maxScore\<close>; a seated player's score equals \<^verbatim>\<open>maxScore\<close>; every
  score of \<open>m\<close> is still a score in \<open>m'\<close> and has not decreased.\<close>

definition scoresBounded :: "gameConfig \<Rightarrow> Lobby \<Rightarrow> bool" where
  "scoresBounded cfg l = (\<forall>k v. scores (game l) k = Some v \<longrightarrow> v \<le> maxScore cfg)"

definition atMax :: "gameConfig \<Rightarrow> Lobby \<Rightarrow> bool" where
  "atMax cfg l = (scoreOf l (player1 l) = Some (maxScore cfg)
                  \<or> scoreOf l (player2 l) = Some (maxScore cfg))"

definition scoresLe :: "(string \<rightharpoonup> nat) \<Rightarrow> (string \<rightharpoonup> nat) \<Rightarrow> bool" where
  "scoresLe m m' = (\<forall>k v. m k = Some v \<longrightarrow> (\<exists>v'. m' k = Some v' \<and> v \<le> v'))"

text \<open>Auxiliary relations for the proofs: two lobbies with the same scoring data; a lobby
  whose finished flag says exactly that a score is at the maximum; one whose flag is set
  at least then; and what a step may do to the scoring.\<close>

definition sameScoring :: "Lobby \<Rightarrow> Lobby \<Rightarrow> bool" where
  "sameScoring l l' = (players l' = players l \<and> scores (game l') = scores (game l)
                        \<and> hasFinished (game l') = hasFinished (game l))"

definition settled :: "gameConfig \<Rightarrow> Lobby \<Rightarrow> bool" where
  "settled cfg l = (scoresBounded cfg l \<and> (hasFinished (game l) \<longleftrightarrow> atMax cfg l))"

definition consistent :: "gameConfig \<Rightarrow> Lobby \<Rightarrow> bool" where
  "consistent cfg l = (scoresBounded cfg l \<and> (atMax cfg l \<longrightarrow> hasFinished (game l)))"

definition scoringStep :: "gameConfig \<Rightarrow> Lobby \<Rightarrow> Lobby \<Rightarrow> bool" where
  "scoringStep cfg l l' =
     (players l' = players l \<and> scoresLe (scores (game l)) (scores (game l'))
      \<and> settled cfg l')"

text \<open>What happens during an await keeps the scores, and keeps the finished flag in step
  with them as far as no call runs \<^verbatim>\<open>triggerFinish\<close>.\<close>

definition awaited :: "gameConfig \<Rightarrow> bool \<Rightarrow> Lobby \<Rightarrow> Lobby \<Rightarrow> bool" where
  "awaited cfg q l l' =
     (scores (game l') = scores (game l) \<and> consistent cfg l'
      \<and> (q \<longrightarrow> settled cfg l \<longrightarrow> settled cfg l'))"

text \<open>What a part of a loop run does to a lobby that was settled before it.\<close>

definition looped :: "gameConfig \<Rightarrow> bool \<Rightarrow> Lobby \<Rightarrow> Lobby \<Rightarrow> bool" where
  "looped cfg q l l' =
     (scoresLe (scores (game l)) (scores (game l')) \<and> consistent cfg l'
      \<and> (q \<longrightarrow> settled cfg l'))"

text \<open>The sample lobby with the stop flag of its engine set.\<close>

definition lobbyStopped :: Lobby where
  "lobbyStopped = lobby0\<lparr>game := (game lobby0)\<lparr>stop := True\<rparr>\<rparr>"

text \<open>A fourth socket; a Custom lobby with one seat taken and a manager that holds it; the
  same with both seats taken; and a user service in which the user \<open>dave\<close> has blocked
  \<open>alice\<close> and \<open>carol\<close>.\<close>

definition dave :: client where
  "dave = \<lparr>socket_id = ''sd'', data_id = ''dave'', data_username = ''Dave''\<rparr>"

definition lobbyC :: Lobby where
  "lobbyC = (newLobby cfg0 \<lparr>new_id = ''LC'', new_createdAt = 0, new_ballDirection = 1\<rparr> Custom)
              \<lparr>players := [alice]\<rparr>"

definition mgrInvite :: LobbyManager where
  "mgrInvite = \<lparr>playerQueue = [], lobbies = [''LC''], heap = [''LC'' \<mapsto> lobbyC],
                 dataLobby = [''sa'' \<mapsto> ''LC''], chatOutbox = []\<rparr>"

definition lobbyFull :: Lobby where
  "lobbyFull = lobbyC\<lparr>players := [alice, bob]\<rparr>"

definition mgrFull :: LobbyManager where
  "mgrFull = \<lparr>playerQueue = [], lobbies = [''LC''], heap = [''LC'' \<mapsto> lobbyFull],
               dataLobby = [''sa'' \<mapsto> ''LC'', ''sb'' \<mapsto> ''LC''], chatOutbox = []\<rparr>"

definition usBlock :: UserService where
  "usBlock = \<lparr>findOneById = (\<lambda>i. case i of None \<Rightarrow> None
                                     | Some u \<Rightarrow> Some \<lparr>user_id = u, blockedUsers = []\<rparr>),
           findOneWithRelations = (\<lambda>u. Some \<lparr>user_id = u,
               blockedUsers = (if u = ''dave'' then [''alice'', ''carol''] else [])\<rparr>)\<rparr>"

text \<open>Managers with one and with three sockets waiting in the queue, and the data of a
  lobby to be created.\<close>

definition mgrQueue1 :: LobbyManager where
  "mgrQueue1 = \<lparr>playerQueue = [alice], lobbies = [], heap = Map.empty,
                 dataLobby = Map.empty, chatOutbox = []\<rparr>"

definition mgrQueue3 :: LobbyManager where
  "mgrQueue3 = \<lparr>playerQueue = [alice, bob, carol], lobbies = [], heap = Map.empty,
                 dataLobby = Map.empty, chatOutbox = []\<rparr>"

definition crQ :: creation where
  "crQ = \<lparr>new_id = ''LQ'', new_createdAt = 7, new_ballDirection = 1\<rparr>"

text \<open>A manager that holds the started sample lobby.\<close>

definition mgrStarted :: LobbyManager where
  "mgrStarted = \<lparr>playerQueue = [], lobbies = [''L1''], heap = [''L1'' \<mapsto> started1],
                  dataLobby = [''sa'' \<mapsto> ''L1'', ''sb'' \<mapsto> ''L1''], chatOutbox = []\<rparr>"









section \<open>The sample data, evaluated\<close>

text \<open>Collections of defining equations for evaluating the functions on the sample data,
  and the sample lobby after its start.\<close>

lemmas sample_defs = cfg0_def cfg1_def lobby0_def lobby1_def alice_def bob_def carol_def us0_def
  newLobby_def newGame_def unsetPaddle_def unsetBall_def

lemmas start_defs = triggerStart_def initializeGameObjects_def Let_def player1_def player2_def
  zeroScores_def dispatchToLobby_def countDown_def countDownStart_def countDownTick_def
  emitCountdown_def countDownLoop.simps

lemmas step_defs = gameLoop_def loopBody_def updateGameState_def updatePaddlePosition_def
  movePaddleBy_def checkPaddleBounds_def updateBallPosition_def handleCollisions_def
  handleCollisions_paddles_def handleCollisions_walls_def ballCollidesWithPaddle_def
  handleBallPaddleCollision_def handleScreenBoundsCollision_def increment_def dispatchScore_def
  scoreOf_def checkGameFinish_def setLoser_def triggerFinish_def sendGameState_def paddleView_def

lemma started1_game:
  "game started1 =
     \<lparr>hasStarted = True, hasFinished = False, stop = False, gamePaused = False,
      scores = [''alice'' \<mapsto> 0, ''bob'' \<mapsto> 0],
      paddle1 = \<lparr>paddle_x = 10, paddle_y = 250, paddle_width = 10, paddle_height = 100,
                  paddle_velocity_y = 0, direction = NONE\<rparr>,
      paddle2 = \<lparr>paddle_x = 780, paddle_y = 250, paddle_width = 10, paddle_height = 100,
                  paddle_velocity_y = 0, direction = NONE\<rparr>,
      ball = \<lparr>ball_x = 400, ball_y = 300, radius = 8, velocity_x = 400, velocity_y = 0\<rparr>,
      ballSpeedPerSecond = 420, ballDirection = - 1, matchEntity = None,
      playersReady = Map.empty\<rparr>"
  by (simp add: started1_def sample_defs start_defs)

lemma started1_outbox:
  "outbox started1 =
     [(''sa'', GameStart ''alice'' ''bob'' cfg1 (10, 250) (780, 250) (400, 300)),
      (''sb'', GameStart ''alice'' ''bob'' cfg1 (10, 250) (780, 250) (400, 300)),
      (''sa'', GameCountdown 1), (''sb'', GameCountdown 1),
      (''sa'', GameCountdown 0), (''sb'', GameCountdown 0)]"
  by (simp add: started1_def sample_defs start_defs)

lemma started1_players: "players started1 = [alice, bob]"
  by (simp add: started1_def lobby1_def newLobby_def start_defs)

lemma started1_mode: "mode started1 = Queued \<and> lobby_id started1 = ''L1'' \<and> createdAt started1 = 0
   \<and> invitedPlayers started1 = []"
  by (simp add: started1_def lobby1_def newLobby_def start_defs)

lemma started1_start: "triggerStart cfg1 1 (1 / 2) lobby1 = (None, started1)"
proof -
  have "fst (triggerStart cfg1 1 (1 / 2) lobby1) = None"
    by (simp add: lobby1_def newLobby_def start_defs)
  then show ?thesis by (simp add: started1_def prod_eq_iff)
qed

lemmas eval_defs = started1_game started1_outbox started1_players started1_mode cfg1_def cfg0_def
  alice_def bob_def us0_def step_defs player1_def player2_def dispatchToLobby_def
  initializeGameObjects_def Let_def





lemma scored1_finished:
  "hasFinished (game (snd (gameLoop us0 cfg1 [(1 / 2, [])] started1))) \<and>
   scores (game (snd (gameLoop us0 cfg1 [(1 / 2, [])] started1))) ''alice'' = Some 1 \<and>
   scores (game (snd (gameLoop us0 cfg1 [(1 / 2, [])] started1))) ''bob'' = Some 0"
  by (simp add: eval_defs)

section \<open>Paddle bounds\<close>

lemma checkPaddleBounds_in:
  "paddleMargin cfg \<le> height cfg - paddleHeight cfg - paddleMargin cfg \<Longrightarrow>
   paddle_height p = paddleHeight cfg \<Longrightarrow> paddleInBounds cfg (checkPaddleBounds cfg p)"
  by (simp add: checkPaddleBounds_def paddleInBounds_def)

lemma movePaddleBy_height: "paddle_height (movePaddleBy cfg ts p) = paddle_height p"
  by (simp add: movePaddleBy_def)

lemma setLoser_paddles:
  "paddle1 (game (snd (setLoser us pid l))) = paddle1 (game l) \<and>
   paddle2 (game (snd (setLoser us pid l))) = paddle2 (game l)"
  by (simp add: setLoser_def Let_def split: option.splits)

lemma checkGameFinish_paddles:
  "paddle1 (game (snd (checkGameFinish us cfg l))) = paddle1 (game l) \<and>
   paddle2 (game (snd (checkGameFinish us cfg l))) = paddle2 (game l)"
  by (simp add: checkGameFinish_def Let_def setLoser_paddles player2_def split: option.splits)

lemma initializeGameObjects_in:
  "paddleMargin cfg \<le> height cfg - paddleHeight cfg - paddleMargin cfg \<Longrightarrow>
   paddleInBounds cfg (paddle1 (initializeGameObjects cfg rnd g)) \<and>
   paddleInBounds cfg (paddle2 (initializeGameObjects cfg rnd g))"
  by (simp add: initializeGameObjects_def paddleInBounds_def Let_def field_simps)

lemma handleScreenBoundsCollision_in:
  assumes cfg: "paddleMargin cfg \<le> height cfg - paddleHeight cfg - paddleMargin cfg"
    and p1: "paddleInBounds cfg (paddle1 (game l))"
    and p2: "paddleInBounds cfg (paddle2 (game l))"
  shows "paddleInBounds cfg (paddle1 (game (snd (handleScreenBoundsCollision us cfg rnd l)))) \<and>
         paddleInBounds cfg (paddle2 (game (snd (handleScreenBoundsCollision us cfg rnd l))))"
proof (cases "if ball_x (ball (game l)) \<le> radius (ball (game l)) then player2 l else player1 l")
  case None
  then show ?thesis using p1 p2 by (simp add: handleScreenBoundsCollision_def)
next
  case (Some p)
  define l3 where "l3 = dispatchScore (l\<lparr>game := initializeGameObjects cfg rnd
      ((game l)\<lparr>scores := increment (scores (game l)) (data_id p)\<rparr>)\<rparr>)"
  have l3: "paddleInBounds cfg (paddle1 (game l3)) \<and> paddleInBounds cfg (paddle2 (game l3))"
    using initializeGameObjects_in[OF cfg]
    by (simp add: l3_def dispatchScore_def dispatchToLobby_def)
  obtain e l4 where c: "checkGameFinish us cfg l3 = (e, l4)"
    by (cases "checkGameFinish us cfg l3")
  have l4: "paddle1 (game l4) = paddle1 (game l3) \<and> paddle2 (game l4) = paddle2 (game l3)"
    using checkGameFinish_paddles[of us cfg l3] c by simp
  have "snd (handleScreenBoundsCollision us cfg rnd l) = l4
      \<or> snd (handleScreenBoundsCollision us cfg rnd l) = l4\<lparr>game := (game l4)\<lparr>gamePaused := True\<rparr>\<rparr>"
    using Some c unfolding handleScreenBoundsCollision_def l3_def[symmetric] Let_def
    by (cases e) (simp_all add: l3_def[symmetric])
  then show ?thesis using l3 l4 by auto
qed

lemma handleCollisions_paddles_frame:
  "paddle1 (handleCollisions_paddles g) = paddle1 g \<and>
   paddle2 (handleCollisions_paddles g) = paddle2 g"
  by (simp add: handleCollisions_paddles_def handleBallPaddleCollision_def Let_def)

lemma handleCollisions_in:
  assumes cfg: "paddleMargin cfg \<le> height cfg - paddleHeight cfg - paddleMargin cfg"
    and p1: "paddleInBounds cfg (paddle1 (game l))"
    and p2: "paddleInBounds cfg (paddle2 (game l))"
  shows "paddleInBounds cfg (paddle1 (game (snd (handleCollisions us cfg rnd l)))) \<and>
         paddleInBounds cfg (paddle2 (game (snd (handleCollisions us cfg rnd l))))"
proof -
  define l1 where "l1 = l\<lparr>game := handleCollisions_paddles (game l)\<rparr>"
  have q: "paddleInBounds cfg (paddle1 (game l1))" "paddleInBounds cfg (paddle2 (game l1))"
    using p1 p2 by (simp_all add: l1_def handleCollisions_paddles_frame)
  show ?thesis
    unfolding handleCollisions_def l1_def[symmetric] handleCollisions_walls_def Let_def
    using q handleScreenBoundsCollision_in[OF cfg q, of us rnd] by simp
qed

text \<open>
  C4. In a playfield that has room for the paddle between the two margins, and for
  paddles of the configured height (the only ones \<^verbatim>\<open>initializeGameObjects\<close> makes), both
  paddles satisfy \<open>paddleMargin \<le> y \<le> height - paddleHeight - paddleMargin\<close> after
  \<^verbatim>\<open>updatePaddlePosition\<close> (movement, then clamp), whatever their position and direction
  were, and still do at the end of the whole step \<^verbatim>\<open>updateGameState\<close>, also when the step
  scores a point and resets the paddles.
\<close>

theorem paddles_stay_within_bounds:
  assumes cfg: "paddleMargin cfg \<le> height cfg - paddleHeight cfg - paddleMargin cfg"
    and h1: "paddle_height (paddle1 (game l)) = paddleHeight cfg"
    and h2: "paddle_height (paddle2 (game l)) = paddleHeight cfg"
  shows "paddleInBounds cfg (paddle1 (updatePaddlePosition cfg ts (game l))) \<and>
         paddleInBounds cfg (paddle2 (updatePaddlePosition cfg ts (game l))) \<and>
         paddleInBounds cfg (paddle1 (game (snd (updateGameState us cfg rnd ts l)))) \<and>
         paddleInBounds cfg (paddle2 (game (snd (updateGameState us cfg rnd ts l))))"
proof -
  have a: "paddleInBounds cfg (paddle1 (updatePaddlePosition cfg ts (game l)))"
    using checkPaddleBounds_in[OF cfg, of "movePaddleBy cfg ts (paddle1 (game l))"] h1
    by (simp add: updatePaddlePosition_def movePaddleBy_height)
  have b: "paddleInBounds cfg (paddle2 (updatePaddlePosition cfg ts (game l)))"
    using checkPaddleBounds_in[OF cfg, of "movePaddleBy cfg ts (paddle2 (game l))"] h2
    by (simp add: updatePaddlePosition_def movePaddleBy_height)
  define l1 where "l1 = l\<lparr>game := updateBallPosition ts (updatePaddlePosition cfg ts (game l))\<rparr>"
  have q: "paddleInBounds cfg (paddle1 (game l1))" "paddleInBounds cfg (paddle2 (game l1))"
    using a b by (simp_all add: l1_def updateBallPosition_def)
  have "updateGameState us cfg rnd ts l = handleCollisions us cfg rnd l1"
    by (simp add: updateGameState_def l1_def)
  then show ?thesis using a b handleCollisions_in[OF cfg q, of us rnd] by simp
qed

text \<open>
  The sample configuration has the room, the sample lobby's paddles have the configured
  height, and a step of two seconds with the first paddle moving up leaves that paddle on
  the upper bound, 10.
\<close>

theorem paddles_stay_within_bounds_witness:
  "paddleMargin cfg0 \<le> height cfg0 - paddleHeight cfg0 - paddleMargin cfg0 \<and>
   paddle_height (paddle1 (game lobbyUp)) = paddleHeight cfg0 \<and>
   paddle_height (paddle2 (game lobbyUp)) = paddleHeight cfg0 \<and>
   paddle_y (paddle1 (game lobbyUp)) = 250 \<and>
   paddle_y (paddle1 (updatePaddlePosition cfg0 2 (game lobbyUp))) = 10 \<and>
   paddleInBounds cfg0 (paddle1 (updatePaddlePosition cfg0 2 (game lobbyUp))) \<and>
   paddleInBounds cfg0 (paddle2 (updatePaddlePosition cfg0 2 (game lobbyUp))) \<and>
   paddleInBounds cfg0 (paddle1 (game (snd (updateGameState us0 cfg0 (1 / 2) 2 lobbyUp)))) \<and>
   paddleInBounds cfg0 (paddle2 (game (snd (updateGameState us0 cfg0 (1 / 2) 2 lobbyUp))))"
proof -
  have c: "paddleMargin cfg0 \<le> height cfg0 - paddleHeight cfg0 - paddleMargin cfg0"
    by (simp add: cfg0_def)
  have h1: "paddle_height (paddle1 (game lobbyUp)) = paddleHeight cfg0"
    by (simp add: lobbyUp_def initializeGameObjects_def Let_def)
  have h2: "paddle_height (paddle2 (game lobbyUp)) = paddleHeight cfg0"
    by (simp add: lobbyUp_def initializeGameObjects_def Let_def)
  have y0: "paddle_y (paddle1 (game lobbyUp)) = 250"
    by (simp add: lobbyUp_def initializeGameObjects_def Let_def cfg0_def)
  have y1: "paddle_y (paddle1 (updatePaddlePosition cfg0 2 (game lobbyUp))) = 10"
    by (simp add: lobbyUp_def initializeGameObjects_def Let_def cfg0_def
        updatePaddlePosition_def movePaddleBy_def checkPaddleBounds_def)
  show ?thesis
    using paddles_stay_within_bounds[OF c h1 h2, of 2 us0 "1 / 2"] c h1 h2 y0 y1 by simp
qed

section \<open>Collisions\<close>

lemma lobbyHit_collides: "velocity_x (ball (game lobbyHit)) < 0 \<and>
   ballCollidesWithPaddle (ball (game lobbyHit)) (paddle1 (game lobbyHit))"
  by (simp add: lobbyHit_def lobbyUp_def lobby0_def newLobby_def newGame_def cfg0_def
       initializeGameObjects_def Let_def ballCollidesWithPaddle_def)

lemma lobbyTop_touches: "ball_y (ball (game lobbyTop)) \<le> radius (ball (game lobbyTop))"
  by (simp add: lobbyTop_def)

lemma handleBallPaddleCollision_vx:
  "velocity_x (ball (handleBallPaddleCollision p g)) = - velocity_x (ball g)"
  by (simp add: handleBallPaddleCollision_def Let_def)

text \<open>
  C6. In \<^verbatim>\<open>handleCollisions\<close>, the paddle test changes the engine only by resolving a
  collision with the first paddle while the ball moves left (\<open>velocity_x < 0\<close>) or with
  the second paddle while it moves right; a resolved collision negates the horizontal
  velocity once, so its sign is flipped. When the ball touches the top or the bottom
  wall, the wall test that follows throws nothing, leaves the horizontal velocity as the
  paddle test left it, negates the vertical velocity, and leaves the scores alone. When
  the ball touches no wall and no goal line, the wall test changes nothing.
\<close>

theorem collisions_flip_velocity_signs:
  fixes l :: Lobby and us :: UserService and cfg :: gameConfig and rnd :: real
  defines "g \<equiv> game l"
  defines "b \<equiv> ball (game l)"
  defines "g1 \<equiv> handleCollisions_paddles (game l)"
  defines "res \<equiv> handleCollisions us cfg rnd l"
  shows "(g1 \<noteq> g \<longrightarrow>
            (velocity_x b < 0 \<and> ballCollidesWithPaddle b (paddle1 g)
               \<and> g1 = handleBallPaddleCollision (paddle1 g) g)
          \<or> (velocity_x b > 0 \<and> ballCollidesWithPaddle b (paddle2 g)
               \<and> g1 = handleBallPaddleCollision (paddle2 g) g))
       \<and> (velocity_x b < 0 \<and> ballCollidesWithPaddle b (paddle1 g)
            \<longrightarrow> velocity_x (ball g1) = - velocity_x b \<and> velocity_x (ball g1) > 0)
       \<and> (velocity_x b > 0 \<and> ballCollidesWithPaddle b (paddle2 g)
            \<longrightarrow> velocity_x (ball g1) = - velocity_x b \<and> velocity_x (ball g1) < 0)
       \<and> (ball_y b \<le> radius b \<or> ball_y b \<ge> height cfg - radius b
            \<longrightarrow> fst res = None
              \<and> velocity_x (ball (game (snd res))) = velocity_x (ball g1)
              \<and> velocity_y (ball (game (snd res))) = - velocity_y (ball g1)
              \<and> scores (game (snd res)) = scores g)
       \<and> (\<not> (ball_y b \<le> radius b \<or> ball_y b \<ge> height cfg - radius b)
            \<and> \<not> (ball_x b \<le> radius b \<or> ball_x b \<ge> width cfg - radius b)
            \<longrightarrow> fst res = None \<and> game (snd res) = g1)"
proof -
  have pos: "ball_x (ball g1) = ball_x b \<and> ball_y (ball g1) = ball_y b \<and> radius (ball g1) = radius b
     \<and> scores g1 = scores g"
    by (simp add: g1_def g_def b_def handleCollisions_paddles_def handleBallPaddleCollision_def Let_def)
  have A: "g1 \<noteq> g \<longrightarrow>
            (velocity_x b < 0 \<and> ballCollidesWithPaddle b (paddle1 g)
               \<and> g1 = handleBallPaddleCollision (paddle1 g) g)
          \<or> (velocity_x b > 0 \<and> ballCollidesWithPaddle b (paddle2 g)
               \<and> g1 = handleBallPaddleCollision (paddle2 g) g)"
    by (simp add: g1_def g_def b_def handleCollisions_paddles_def)
  have B: "velocity_x b < 0 \<and> ballCollidesWithPaddle b (paddle1 g)
            \<longrightarrow> velocity_x (ball g1) = - velocity_x b \<and> velocity_x (ball g1) > 0"
    by (simp add: g1_def g_def b_def handleCollisions_paddles_def handleBallPaddleCollision_vx)
  have C: "velocity_x b > 0 \<and> ballCollidesWithPaddle b (paddle2 g)
            \<longrightarrow> velocity_x (ball g1) = - velocity_x b \<and> velocity_x (ball g1) < 0"
    by (simp add: g1_def g_def b_def handleCollisions_paddles_def handleBallPaddleCollision_vx)
  have D: "ball_y b \<le> radius b \<or> ball_y b \<ge> height cfg - radius b
            \<longrightarrow> fst res = None
              \<and> velocity_x (ball (game (snd res))) = velocity_x (ball g1)
              \<and> velocity_y (ball (game (snd res))) = - velocity_y (ball g1)
              \<and> scores (game (snd res)) = scores g"
    using pos by (auto simp: res_def handleCollisions_def handleCollisions_walls_def Let_def g1_def)
  have E: "\<not> (ball_y b \<le> radius b \<or> ball_y b \<ge> height cfg - radius b)
            \<and> \<not> (ball_x b \<le> radius b \<or> ball_x b \<ge> width cfg - radius b)
            \<longrightarrow> fst res = None \<and> game (snd res) = g1"
    using pos by (auto simp: res_def handleCollisions_def handleCollisions_walls_def Let_def g1_def)
  show ?thesis using A B C D E by blast
qed

text \<open>
  The ball of \<open>lobbyHit\<close> moves left into the first paddle and leaves with horizontal
  velocity 400; the ball of \<open>lobbyTop\<close> touches the top wall, and the step keeps its
  horizontal velocity 300 and turns its vertical velocity from -120 to 120.
\<close>

theorem collisions_flip_velocity_signs_witness:
  "velocity_x (ball (game lobbyHit)) < 0 \<and>
   ballCollidesWithPaddle (ball (game lobbyHit)) (paddle1 (game lobbyHit)) \<and>
   velocity_x (ball (handleCollisions_paddles (game lobbyHit))) = 400 \<and>
   ball_y (ball (game lobbyTop)) \<le> radius (ball (game lobbyTop)) \<and>
   fst (handleCollisions us0 cfg0 (1 / 2) lobbyTop) = None \<and>
   velocity_x (ball (game (snd (handleCollisions us0 cfg0 (1 / 2) lobbyTop)))) = 300 \<and>
   velocity_y (ball (game (snd (handleCollisions us0 cfg0 (1 / 2) lobbyTop)))) = 120"
proof -
  have v: "velocity_x (ball (game lobbyHit)) = - 400" by (simp add: lobbyHit_def)
  have nohit: "handleCollisions_paddles (game lobbyTop) = game lobbyTop"
    by (simp add: lobbyTop_def lobbyUp_def lobby0_def newLobby_def newGame_def cfg0_def
       initializeGameObjects_def Let_def ballCollidesWithPaddle_def handleCollisions_paddles_def)
  have w: "velocity_x (ball (game lobbyTop)) = 300 \<and> velocity_y (ball (game lobbyTop)) = - 120"
    by (simp add: lobbyTop_def)
  show ?thesis
    using collisions_flip_velocity_signs[where l = lobbyHit and us = us0 and cfg = cfg0 and rnd = "1 / 2"]
      collisions_flip_velocity_signs[where l = lobbyTop and us = us0 and cfg = cfg0 and rnd = "1 / 2"] lobbyHit_collides lobbyTop_touches v nohit w
    by simp
qed

section \<open>The bounce off a paddle\<close>

text \<open>Whatever the paddle and the ball, a hit at the paddle's vertical centre leaves with
  half the ball-speed scalar, upwards.\<close>

lemma center_hit_general:
  "paddle_height p \<noteq> 0 \<Longrightarrow> ball_y (ball g) = paddle_y p + paddle_height p / 2 \<Longrightarrow>
   velocity_y (ball (handleBallPaddleCollision p g)) = - ballSpeedPerSecond g / 2"
  by (simp add: handleBallPaddleCollision_def Let_def field_simps)

text \<open>
  C7. The ball of \<open>lobbyHit\<close> strikes the first paddle at its vertical centre (the ball's
  \<open>y\<close> is the paddle's \<open>y\<close> plus half its height), the collision is resolved by
  \<^verbatim>\<open>handleBallPaddleCollision\<close> with a ball-speed scalar of 420, and the ball leaves with
  vertical velocity -210, half the scalar upwards, not 0: the offset is taken from
  \<^verbatim>\<open>paddle.y + paddle.height\<close>, the paddle's lower edge.
\<close>

theorem center_hit_leaves_with_vertical_velocity:
  "ball_y (ball (game lobbyHit))
     = paddle_y (paddle1 (game lobbyHit)) + paddle_height (paddle1 (game lobbyHit)) / 2 \<and>
   ballSpeedPerSecond (game lobbyHit) = 420 \<and>
   handleCollisions_paddles (game lobbyHit)
     = handleBallPaddleCollision (paddle1 (game lobbyHit)) (game lobbyHit) \<and>
   velocity_y (ball (handleCollisions_paddles (game lobbyHit))) = - 210"
  using lobbyHit_collides
  by (simp add: handleCollisions_paddles_def)
     (simp add: handleBallPaddleCollision_def lobbyHit_def lobbyUp_def lobby0_def newLobby_def newGame_def cfg0_def
       initializeGameObjects_def Let_def)

section \<open>Scores and the finished flag\<close>

lemma scoresLe_refl: "scoresLe m m"
  by (simp add: scoresLe_def)

lemma scoresLe_trans: "scoresLe a b \<Longrightarrow> scoresLe b c \<Longrightarrow> scoresLe a c"
  unfolding scoresLe_def by (meson le_trans)

lemma scoresLe_increment: "scoresLe m (increment m k)"
  by (auto simp: scoresLe_def increment_def split: option.splits)

lemma scoreOf_cong: "scores (game l') = scores (game l) \<Longrightarrow> scoreOf l' p = scoreOf l p"
  by (cases p) (simp_all add: scoreOf_def)

lemma players_cong:
  "players l' = players l \<Longrightarrow> player1 l' = player1 l \<and> player2 l' = player2 l"
  by (simp add: player1_def player2_def)

lemma sameScoring_atMax: "sameScoring l l' \<Longrightarrow> atMax cfg l' = atMax cfg l"
  using scoreOf_cong[of l' l] players_cong[of l' l]
  by (simp add: sameScoring_def atMax_def)

lemma sameScoring_settled:
  "sameScoring l l' \<Longrightarrow> settled cfg l \<Longrightarrow> settled cfg l'"
  using sameScoring_atMax[of l l' cfg]
  by (simp add: settled_def scoresBounded_def) (simp add: sameScoring_def)

lemma sameScoring_refl: "sameScoring l l"
  by (simp add: sameScoring_def)

lemma sameScoring_trans: "sameScoring a b \<Longrightarrow> sameScoring b c \<Longrightarrow> sameScoring a c"
  by (simp add: sameScoring_def)

lemma setLoser_same: "sameScoring l (snd (setLoser us pid l))"
  by (simp add: setLoser_def sameScoring_def Let_def split: option.splits)

lemma setLoser_frame:
  "players (snd (setLoser us pid l)) = players l \<and>
   scores (game (snd (setLoser us pid l))) = scores (game l) \<and>
   hasFinished (game (snd (setLoser us pid l))) = hasFinished (game l)"
  by (simp add: setLoser_def Let_def split: option.splits)

lemma checkGameFinish_scoring:
  assumes nf: "\<not> hasFinished (game l)"
  shows "players (snd (checkGameFinish us cfg l)) = players l \<and>
         scores (game (snd (checkGameFinish us cfg l))) = scores (game l) \<and>
         (hasFinished (game (snd (checkGameFinish us cfg l))) \<longleftrightarrow> atMax cfg l)"
proof (cases "player1 l")
  case None
  then have "player2 l = None" by (auto simp: player1_def player2_def split: list.splits)
  with None nf show ?thesis by (simp add: checkGameFinish_def atMax_def scoreOf_def)
next
  case (Some p1)
  note p1 = Some
  have p2lf: "player2 (l\<lparr>game := (game l)\<lparr>hasFinished := True\<rparr>\<rparr>) = player2 l"
    by (simp add: player2_def)
  show ?thesis
  proof (cases "scores (game l) (data_id p1) = Some (maxScore cfg)")
    case True
    then have am: "atMax cfg l" using p1 by (simp add: atMax_def scoreOf_def)
    show ?thesis
    proof (cases "player2 l")
      case None
      then show ?thesis using p1 True am p2lf
        by (simp add: checkGameFinish_def Let_def)
    next
      case (Some p2)
      then show ?thesis using p1 True am p2lf
        by (simp add: checkGameFinish_def Let_def setLoser_frame)
    qed
  next
    case False
    show ?thesis
    proof (cases "player2 l")
      case None
      then show ?thesis using p1 False nf
        by (simp add: checkGameFinish_def atMax_def scoreOf_def)
    next
      case (Some p2)
      then show ?thesis using p1 False nf
        by (simp add: checkGameFinish_def atMax_def scoreOf_def setLoser_frame)
    qed
  qed
qed

lemma scoringStep_same:
  "settled cfg l \<Longrightarrow> sameScoring l l' \<Longrightarrow> scoringStep cfg l l'"
  using sameScoring_settled[of l l' cfg]
  by (simp add: scoringStep_def sameScoring_def scoresLe_refl)

lemma scoringStep_then_same:
  "scoringStep cfg l l1 \<Longrightarrow> sameScoring l1 l' \<Longrightarrow> scoringStep cfg l l'"
  using sameScoring_settled[of l1 l' cfg]
  by (simp add: scoringStep_def sameScoring_def)

lemma same_then_scoringStep:
  "sameScoring l l1 \<Longrightarrow> scoringStep cfg l1 l' \<Longrightarrow> scoringStep cfg l l'"
  by (simp add: scoringStep_def sameScoring_def)

lemma increment_bounded:
  assumes b: "\<forall>k v. m k = Some v \<longrightarrow> v \<le> n" and k: "m k \<noteq> Some n"
  shows "\<forall>k' v. increment m k k' = Some v \<longrightarrow> v \<le> n"
proof (intro allI impI)
  fix k' v assume h: "increment m k k' = Some v"
  show "v \<le> n"
  proof (cases "m k")
    case None
    then show ?thesis using h b by (simp add: increment_def)
  next
    case (Some w)
    then have "w \<le> n" "w \<noteq> n" using b k by auto
    then have "Suc w \<le> n" by simp
    then show ?thesis using h b Some by (cases "k' = k") (auto simp: increment_def)
  qed
qed

lemma handleScreenBoundsCollision_scoring:
  assumes nf: "\<not> hasFinished (game l)" and st: "settled cfg l"
  shows "scoringStep cfg l (snd (handleScreenBoundsCollision us cfg rnd l))"
proof (cases "if ball_x (ball (game l)) \<le> radius (ball (game l)) then player2 l else player1 l")
  case None
  then show ?thesis using st
    by (simp add: handleScreenBoundsCollision_def scoringStep_same sameScoring_refl)
next
  case (Some p)
  have nam: "\<not> atMax cfg l" using nf st by (simp add: settled_def)
  have "Some p = player1 l \<or> Some p = player2 l" using Some by (auto split: if_splits)
  then have pk: "scores (game l) (data_id p) \<noteq> Some (maxScore cfg)"
    using nam by (auto simp: atMax_def scoreOf_def split: option.splits)
  define l3 where "l3 = dispatchScore (l\<lparr>game := initializeGameObjects cfg rnd
      ((game l)\<lparr>scores := increment (scores (game l)) (data_id p)\<rparr>)\<rparr>)"
  have l3: "players l3 = players l" "scores (game l3) = increment (scores (game l)) (data_id p)"
    "\<not> hasFinished (game l3)"
    using nf by (simp_all add: l3_def dispatchScore_def dispatchToLobby_def
        initializeGameObjects_def Let_def)
  have b3: "scoresBounded cfg l3"
    using increment_bounded[of "scores (game l)" "maxScore cfg" "data_id p"] pk st l3(2)
    by (simp add: settled_def scoresBounded_def)
  obtain e l4 where c: "checkGameFinish us cfg l3 = (e, l4)"
    by (cases "checkGameFinish us cfg l3")
  have l4: "players l4 = players l3" "scores (game l4) = scores (game l3)"
    "hasFinished (game l4) \<longleftrightarrow> atMax cfg l3"
    using checkGameFinish_scoring[OF l3(3), of us cfg] c by simp_all
  have am4: "atMax cfg l4 = atMax cfg l3"
    using scoreOf_cong[of l4 l3] players_cong[of l4 l3] l4 by (simp add: atMax_def)
  have s4: "settled cfg l4"
    using b3 l4 am4 by (simp add: settled_def scoresBounded_def)
  have step4: "scoringStep cfg l l4"
    using s4 l4 l3 scoresLe_increment[of "scores (game l)" "data_id p"]
    by (simp add: scoringStep_def)
  have "snd (handleScreenBoundsCollision us cfg rnd l) = l4
      \<or> snd (handleScreenBoundsCollision us cfg rnd l) = l4\<lparr>game := (game l4)\<lparr>gamePaused := True\<rparr>\<rparr>"
    using Some c unfolding handleScreenBoundsCollision_def l3_def[symmetric] Let_def
    by (cases e) (simp_all add: l3_def[symmetric])
  moreover have "sameScoring l4 (l4\<lparr>game := (game l4)\<lparr>gamePaused := True\<rparr>\<rparr>)"
    by (simp add: sameScoring_def)
  ultimately show ?thesis using step4 scoringStep_then_same by metis
qed

lemma handleCollisions_scoring:
  assumes nf: "\<not> hasFinished (game l)" and st: "settled cfg l"
  shows "scoringStep cfg l (snd (handleCollisions us cfg rnd l))"
proof -
  define l1 where "l1 = l\<lparr>game := handleCollisions_paddles (game l)\<rparr>"
  have same: "sameScoring l l1"
    by (simp add: l1_def sameScoring_def handleCollisions_paddles_def
        handleBallPaddleCollision_def Let_def)
  have nf1: "\<not> hasFinished (game l1)" and st1: "settled cfg l1"
    using same nf st sameScoring_settled by (auto simp: sameScoring_def)
  have "scoringStep cfg l1 (snd (handleCollisions_walls us cfg rnd l1))"
    using handleScreenBoundsCollision_scoring[OF nf1 st1, of us rnd] st1
    by (simp add: handleCollisions_walls_def Let_def scoringStep_same sameScoring_def)
  then show ?thesis
    using same same_then_scoringStep by (simp add: handleCollisions_def l1_def[symmetric])
qed

lemma updateGameState_scoring:
  assumes nf: "\<not> hasFinished (game l)" and st: "settled cfg l"
  shows "scoringStep cfg l (snd (updateGameState us cfg rnd ts l))"
proof -
  define l1 where "l1 = l\<lparr>game := updateBallPosition ts (updatePaddlePosition cfg ts (game l))\<rparr>"
  have same: "sameScoring l l1"
    by (simp add: l1_def sameScoring_def updateBallPosition_def updatePaddlePosition_def)
  have nf1: "\<not> hasFinished (game l1)" and st1: "settled cfg l1"
    using same nf st sameScoring_settled by (auto simp: sameScoring_def)
  show ?thesis
    using handleCollisions_scoring[OF nf1 st1, of us rnd] same same_then_scoringStep
    by (simp add: updateGameState_def l1_def[symmetric])
qed

lemma countDownTick_frame:
  "game (snd (countDownTick cd l)) = game l \<and> players (snd (countDownTick cd l)) = players l"
  by (simp add: countDownTick_def emitCountdown_def Let_def)

lemma countDownLoop_frame:
  "game (countDownLoop cd l) = game l \<and> players (countDownLoop cd l) = players l"
proof (induction cd l rule: countDownLoop.induct)
  case (1 cd l)
  show ?case
  proof (cases "cleared cd")
    case True
    then have "countDownLoop cd l = l" by (subst countDownLoop.simps) simp
    then show ?thesis by simp
  next
    case False
    have "countDownLoop cd l = countDownLoop (fst (countDownTick cd l)) (snd (countDownTick cd l))"
      using False by (subst countDownLoop.simps) simp
    then show ?thesis using 1[OF False] countDownTick_frame[of cd l] by simp
  qed
qed

lemma countDown_frame:
  "game (countDown n l) = game l \<and> players (countDown n l) = players l"
  by (simp add: countDown_def countDownLoop_frame countDownStart_def emitCountdown_def)

lemma triggerFinish_frame:
  "players (triggerFinish l) = players l \<and> scores (game (triggerFinish l)) = scores (game l) \<and>
   hasFinished (game (triggerFinish l))"
  by (simp add: triggerFinish_def dispatchToLobby_def Let_def)

lemma sendGameState_frame: "game (sendGameState l) = game l \<and> players (sendGameState l) = players l"
  by (simp add: sendGameState_def dispatchToLobby_def)

lemma settled_consistent: "settled cfg l \<Longrightarrow> consistent cfg l"
  by (simp add: settled_def consistent_def)

lemma consistent_settled: "consistent cfg l \<Longrightarrow> \<not> hasFinished (game l) \<Longrightarrow> settled cfg l"
  by (auto simp: settled_def consistent_def)

lemma movePaddle_same: "sameScoring l (snd (movePaddle c d l))"
  by (simp add: movePaddle_def sameScoring_def split: option.splits)

lemma sameScoring_consistent: "sameScoring l l' \<Longrightarrow> consistent cfg l \<Longrightarrow> consistent cfg l'"
  using sameScoring_atMax[of l l' cfg]
  by (simp add: consistent_def scoresBounded_def) (simp add: sameScoring_def)

lemma triggerFinish_consistent:
  "scoresBounded cfg l \<Longrightarrow> consistent cfg (triggerFinish l)"
  using triggerFinish_frame[of l] by (simp add: consistent_def scoresBounded_def)

lemma leaveEffect_scores:
  "scores (game (leaveEffect c l)) = scores (game l) \<and> hasFinished (game (leaveEffect c l))"
  using triggerFinish_frame by (simp add: leaveEffect_def Let_def sendEvent_def)

lemma expireEffect_scores:
  "scores (game (expireEffect l)) = scores (game l) \<and> hasFinished (game (expireEffect l))"
  using triggerFinish_frame by (simp add: expireEffect_def dispatchToLobby_def)

lemma awaited_same: "consistent cfg l \<Longrightarrow> sameScoring l l' \<Longrightarrow> awaited cfg q l l'"
  using sameScoring_consistent[of l l' cfg] sameScoring_settled[of l l' cfg]
  by (simp add: awaited_def sameScoring_def)

lemma awaited_trans:
  "awaited cfg q l l1 \<Longrightarrow> awaited cfg q' l1 l2 \<Longrightarrow> awaited cfg (q \<and> q') l l2"
  by (simp add: awaited_def)

lemma externalCall_awaited:
  assumes c: "consistent cfg l"
  shows "awaited cfg (\<not> finishing call) l (externalCall call l)"
proof (cases call)
  case (MoveCall cl d)
  then show ?thesis using awaited_same[OF c movePaddle_same[of l cl d]] by simp
next
  case (LeaveCall cl)
  then show ?thesis using c leaveEffect_scores[of cl l]
    by (simp add: awaited_def consistent_def scoresBounded_def)
next
  case ExpireCall
  then show ?thesis using c expireEffect_scores[of l]
    by (simp add: awaited_def consistent_def scoresBounded_def)
qed

lemma calls_awaited:
  "consistent cfg l \<Longrightarrow>
   awaited cfg (\<not> list_ex finishing calls) l (foldl (\<lambda>l c. externalCall c l) l calls)"
proof (induction calls arbitrary: l)
  case Nil
  then show ?case by (simp add: awaited_same sameScoring_refl)
next
  case (Cons call calls)
  have a: "awaited cfg (\<not> finishing call) l (externalCall call l)"
    by (rule externalCall_awaited[OF Cons.prems])
  then have "consistent cfg (externalCall call l)" by (simp add: awaited_def)
  from awaited_trans[OF a Cons.IH[OF this]] show ?case by simp
qed

lemma countDownTick_same: "sameScoring l (snd (countDownTick cd l))"
  using countDownTick_frame[of cd l] by (simp add: sameScoring_def)

lemma countDownAwait_awaited:
  "consistent cfg l \<Longrightarrow> awaited cfg (quiet arriving) l (countDownAwait arriving cd l)"
proof (induction arriving arbitrary: cd l)
  case Nil
  have "sameScoring l (countDownLoop cd l)"
    using countDownLoop_frame[of cd l] by (simp add: sameScoring_def)
  then show ?case using awaited_same[OF Nil] by simp
next
  case (Cons calls later)
  show ?case
  proof (cases "cleared cd")
    case True
    then show ?thesis using awaited_same[OF Cons.prems sameScoring_refl] by simp
  next
    case False
    define l1 where "l1 = foldl (\<lambda>l c. externalCall c l) l calls"
    define l2 where "l2 = snd (countDownTick cd l1)"
    have a1: "awaited cfg (\<not> list_ex finishing calls) l l1"
      unfolding l1_def by (rule calls_awaited[OF Cons.prems])
    then have c1: "consistent cfg l1" by (simp add: awaited_def)
    have a2: "awaited cfg True l1 l2"
      unfolding l2_def by (rule awaited_same[OF c1 countDownTick_same])
    then have c2: "consistent cfg l2" by (simp add: awaited_def)
    have a3: "awaited cfg (quiet later) l2 (countDownAwait later (fst (countDownTick cd l1)) l2)"
      by (rule Cons.IH[OF c2])
    have "countDownAwait (calls # later) cd l
            = countDownAwait later (fst (countDownTick cd l1)) l2"
      using False by (simp add: l1_def l2_def Let_def)
    then show ?thesis
      using awaited_trans[OF awaited_trans[OF a1 a2] a3] by (simp add: quiet_def)
  qed
qed

lemma countDownWith_awaited:
  assumes c: "consistent cfg l"
  shows "awaited cfg (quiet arriving) l (countDownWith n arriving l)"
proof -
  have s: "sameScoring l (snd (countDownStart n l))"
    by (simp add: countDownStart_def emitCountdown_def sameScoring_def)
  have a: "awaited cfg True l (snd (countDownStart n l))" by (rule awaited_same[OF c s])
  then have "consistent cfg (snd (countDownStart n l))" by (simp add: awaited_def)
  from awaited_trans[OF a countDownAwait_awaited[OF this]] show ?thesis
    by (simp add: countDownWith_def)
qed

lemma loopBody_looped:
  assumes nf: "\<not> hasFinished (game l)" and st: "settled cfg l"
  shows "looped cfg (quiet (snd it)) l (snd (loopBody us cfg it l))"
proof -
  obtain e l1 where u: "updateGameState us cfg (fst it) (timeStep cfg) l = (e, l1)"
    by (cases "updateGameState us cfg (fst it) (timeStep cfg) l")
  have s1: "scoringStep cfg l l1"
    using updateGameState_scoring[OF nf st, of us "fst it" "timeStep cfg"] u by simp
  then have le1: "scoresLe (scores (game l)) (scores (game l1))" and st1: "settled cfg l1"
    by (simp_all add: scoringStep_def)
  show ?thesis
  proof (cases e)
    case (Some err)
    then show ?thesis using u le1 st1 settled_consistent by (simp add: loopBody_def looped_def)
  next
    case None
    define lw where "lw = countDownWith (pointCountDownDuration cfg) (snd it) l1"
    define l2 where "l2 = (if gamePaused (game l1)
                    then lw\<lparr>game := (game lw)\<lparr>gamePaused := False\<rparr>\<rparr>
                    else l1)"
    have aw: "awaited cfg (quiet (snd it)) l1 lw"
      unfolding lw_def by (rule countDownWith_awaited[OF settled_consistent[OF st1]])
    then have cw: "consistent cfg lw" by (simp add: awaited_def)
    have "awaited cfg True lw (lw\<lparr>game := (game lw)\<lparr>gamePaused := False\<rparr>\<rparr>)"
      by (rule awaited_same[OF cw]) (simp add: sameScoring_def)
    from awaited_trans[OF aw this]
    have "awaited cfg (quiet (snd it)) l1 (lw\<lparr>game := (game lw)\<lparr>gamePaused := False\<rparr>\<rparr>)"
      by simp
    moreover have "awaited cfg (quiet (snd it)) l1 l1"
      by (rule awaited_same[OF settled_consistent[OF st1] sameScoring_refl])
    ultimately have a2: "awaited cfg (quiet (snd it)) l1 l2" by (simp add: l2_def)
    then have c2: "consistent cfg l2" by (simp add: awaited_def)
    define l3 where "l3 = (if hasFinished (game l2) then triggerFinish l2 else sendGameState l2)"
    have res: "snd (loopBody us cfg it l) = l3"
      using u None by (simp add: loopBody_def l2_def lw_def l3_def Let_def)
    have "sameScoring l2 l3"
      using triggerFinish_frame[of l2] sendGameState_frame[of l2]
      by (simp add: sameScoring_def l3_def)
    from awaited_same[OF c2 this, of True] have a3: "awaited cfg True l2 l3" .
    from awaited_trans[OF a2 a3] have "awaited cfg (quiet (snd it)) l1 l3" by simp
    then show ?thesis using le1 st1 by (simp add: res looped_def awaited_def)
  qed
qed

lemma looped_trans:
  "looped cfg q a b \<Longrightarrow> looped cfg q' b c \<Longrightarrow> looped cfg q' a c"
  using scoresLe_trans by (auto simp: looped_def)

lemma whileLoop_looped:
  "\<not> hasFinished (game l) \<Longrightarrow> settled cfg l \<Longrightarrow>
   looped cfg (\<not> list_ex (\<lambda>it. \<not> quiet (snd it)) its) l (snd (whileLoop us cfg its l))"
proof (induction its arbitrary: l)
  case Nil
  then show ?case using settled_consistent by (simp add: looped_def scoresLe_refl)
next
  case (Cons it its)
  obtain e l1 where b: "loopBody us cfg it l = (e, l1)" by (cases "loopBody us cfg it l")
  have s1: "looped cfg (quiet (snd it)) l l1"
    using loopBody_looped[OF Cons.prems, of it us] b by simp
  show ?case
  proof (cases "e = None \<and> \<not> hasFinished (game l1)")
    case True
    then have r: "snd (whileLoop us cfg (it # its) l) = snd (whileLoop us cfg its l1)"
      using b by simp
    have "settled cfg l1" using s1 True consistent_settled by (simp add: looped_def)
    then have "looped cfg (\<not> list_ex (\<lambda>it. \<not> quiet (snd it)) its) l1
                 (snd (whileLoop us cfg its l1))"
      using Cons.IH[of l1] True by simp
    from looped_trans[OF s1 this]
    have "looped cfg (\<not> list_ex (\<lambda>it. \<not> quiet (snd it)) its) l (snd (whileLoop us cfg its l1))" .
    then show ?thesis unfolding r by (simp add: looped_def)
  next
    case False
    then have r: "snd (whileLoop us cfg (it # its) l) = l1"
      using b by (cases e) auto
    show ?thesis unfolding r using s1 by (simp add: looped_def)
  qed
qed

lemma gameLoop_consistent:
  assumes c: "consistent cfg l"
  shows "scoresLe (scores (game l)) (scores (game (snd (gameLoop us cfg its l)))) \<and>
         consistent cfg (snd (gameLoop us cfg its l)) \<and>
         (\<not> external (Loop its) \<longrightarrow> settled cfg l \<longrightarrow> settled cfg (snd (gameLoop us cfg its l)))"
proof (cases "hasFinished (game l) \<or> stop (game l)")
  case True
  then show ?thesis using c by (simp add: gameLoop_def scoresLe_refl)
next
  case False
  then have "settled cfg l" using c consistent_settled by simp
  then show ?thesis
    using whileLoop_looped[of l cfg its us] False by (simp add: gameLoop_def looped_def)
qed

lemma engineStep_consistent:
  assumes c: "consistent cfg l"
  shows "scoresLe (scores (game l)) (scores (game (engineStep us cfg i l))) \<and>
         consistent cfg (engineStep us cfg i l) \<and>
         (\<not> external i \<longrightarrow> settled cfg l \<longrightarrow> settled cfg (engineStep us cfg i l))"
proof (cases i)
  case (Loop its)
  then show ?thesis using gameLoop_consistent[OF c, of us its] by simp
next
  case (Move cl d)
  have s: "sameScoring l (snd (movePaddle cl d l))" by (rule movePaddle_same)
  then show ?thesis
    using Move c sameScoring_consistent[OF s] sameScoring_settled[OF s]
    by (simp add: sameScoring_def scoresLe_refl)
next
  case (Leave cl)
  then show ?thesis using c leaveEffect_scores[of cl l]
    by (simp add: consistent_def scoresBounded_def scoresLe_refl)
next
  case Expire
  then show ?thesis using c expireEffect_scores[of l]
    by (simp add: consistent_def scoresBounded_def scoresLe_refl)
qed

lemma engineRun_snoc: "engineRun us cfg (ins @ [i]) l = engineStep us cfg i (engineRun us cfg ins l)"
  by (simp add: engineRun_def)

lemma engineRun_consistent:
  "consistent cfg l \<Longrightarrow> consistent cfg (engineRun us cfg ins l)"
proof (induction ins rule: rev_induct)
  case Nil
  then show ?case by (simp add: engineRun_def)
next
  case (snoc i ins)
  then show ?case using engineStep_consistent[of cfg "engineRun us cfg ins l" us i]
    by (simp add: engineRun_snoc)
qed

lemma engineRun_settled:
  "settled cfg l \<Longrightarrow> \<forall>i \<in> set ins. \<not> external i \<Longrightarrow> settled cfg (engineRun us cfg ins l)"
proof (induction ins rule: rev_induct)
  case Nil
  then show ?case by (simp add: engineRun_def)
next
  case (snoc i ins)
  then have s: "settled cfg (engineRun us cfg ins l)" by simp
  show ?case
    using engineStep_consistent[OF settled_consistent[OF s], of us i] s snoc.prems(2)
    by (simp add: engineRun_snoc)
qed

lemma zeroScores_zero:
  "(\<forall>k v. m k = Some v \<longrightarrow> v = 0) \<Longrightarrow> (\<forall>k v. zeroScores cs m k = Some v \<longrightarrow> v = 0)"
  unfolding zeroScores_def
proof (induction cs arbitrary: m)
  case Nil
  then show ?case by simp
next
  case (Cons c cs)
  have "\<forall>k v. (m(data_id c \<mapsto> 0)) k = Some v \<longrightarrow> v = 0"
    using Cons.prems by auto
  from Cons.IH[OF this] show ?case by simp
qed

lemma triggerStart_settled:
  assumes pos: "0 < maxScore cfg" and fresh: "game l0 = newGame cfg dir"
    and start: "triggerStart cfg cdt rnd l0 = (None, l1)"
  shows "settled cfg l1"
proof -
  define g2 where "g2 = (initializeGameObjects cfg rnd (game l0))\<lparr>playersReady := Map.empty,
      scores := zeroScores (players l0) (scores (initializeGameObjects cfg rnd (game l0)))\<rparr>"
  have z: "\<forall>k v. scores g2 k = Some v \<longrightarrow> v = 0"
    using zeroScores_zero[of "Map.empty" "players l0"]
    by (simp add: g2_def fresh newGame_def initializeGameObjects_def Let_def)
  have nf: "\<not> hasFinished g2"
    by (simp add: g2_def fresh newGame_def initializeGameObjects_def Let_def)
  define l2 where "l2 = l0\<lparr>game := g2\<rparr>"
  obtain p1 p2 where pl: "player1 l2 = Some p1" "player2 l2 = Some p2"
    using start unfolding triggerStart_def Let_def g2_def[symmetric] l2_def[symmetric]
    by (cases "player1 l2"; cases "player2 l2") simp_all
  define l3 where "l3 = dispatchToLobby
                         (GameStart (data_id p1) (data_id p2) cfg
                            (paddle_x (paddle1 g2), paddle_y (paddle1 g2))
                            (paddle_x (paddle2 g2), paddle_y (paddle2 g2))
                            (ball_x (ball g2), ball_y (ball g2))) l2"
  have g4: "game (countDown cdt l3) = g2"
    using countDown_frame[of cdt l3] by (simp add: l3_def dispatchToLobby_def l2_def)
  have "l1 = countDown cdt l3 \<or>
        l1 = (countDown cdt l3)\<lparr>game := (game (countDown cdt l3))\<lparr>hasStarted := True\<rparr>\<rparr>"
    using start pl unfolding triggerStart_def Let_def g2_def[symmetric] l2_def[symmetric]
    by (simp add: l3_def[symmetric] split: if_splits)
  then have "scores (game l1) = scores g2 \<and> hasFinished (game l1) = hasFinished g2"
    using g4 by auto
  then have z1: "\<forall>k v. scores (game l1) k = Some v \<longrightarrow> v = 0" and nf1: "\<not> hasFinished (game l1)"
    using z nf by simp_all
  have "\<And>p. scoreOf l1 p \<noteq> Some (maxScore cfg)"
  proof
    fix p assume "scoreOf l1 p = Some (maxScore cfg)"
    then obtain k where "scores (game l1) k = Some (maxScore cfg)"
      by (cases p) (auto simp: scoreOf_def)
    then show False using z1 pos by fastforce
  qed
  then have "\<not> atMax cfg l1" by (simp add: atMax_def)
  then show ?thesis using z1 nf1 by (auto simp: settled_def scoresBounded_def)
qed

text \<open>
  C1, as amended. Take a lobby with a new engine and a positive \<^verbatim>\<open>maxScore\<close>, start the
  engine, and let any sequence of calls follow (loop runs, paddle moves, leaves, expiry).
  Then at every point of the run: the next call decreases no player's score; no score
  exceeds \<^verbatim>\<open>maxScore\<close>; if a seated player's score equals \<^verbatim>\<open>maxScore\<close> the engine is marked
  finished; and if no call so far came from outside the loop (no leave, no expiry, neither
  between two loop runs nor while a loop run awaited a countdown), the engine is marked
  finished exactly when a seated player's score equals \<^verbatim>\<open>maxScore\<close>.
\<close>

theorem scores_monotone_bounded_finish:
  assumes pos: "0 < maxScore cfg" and fresh: "game l0 = newGame cfg dir"
    and start: "triggerStart cfg cdt rnd l0 = (None, l1)"
  shows "scoresLe (scores (game (engineRun us cfg ins l1)))
                  (scores (game (engineRun us cfg (ins @ [i]) l1))) \<and>
         scoresBounded cfg (engineRun us cfg ins l1) \<and>
         (atMax cfg (engineRun us cfg ins l1) \<longrightarrow> hasFinished (game (engineRun us cfg ins l1))) \<and>
         ((\<forall>j \<in> set ins. \<not> external j) \<longrightarrow>
            (hasFinished (game (engineRun us cfg ins l1)) \<longleftrightarrow> atMax cfg (engineRun us cfg ins l1)))"
proof -
  have s: "settled cfg l1" by (rule triggerStart_settled[OF pos fresh start])
  have c: "consistent cfg (engineRun us cfg ins l1)"
    by (rule engineRun_consistent[OF settled_consistent[OF s]])
  show ?thesis
    using c engineStep_consistent[OF c, of us i] engineRun_settled[OF s, of ins us]
    by (simp add: engineRun_snoc consistent_def settled_def)
qed

text \<open>
  The sample lobby with a match of one point: after a paddle move and one loop run in
  which the ball crosses the right goal line, the first player has 1 point, the engine
  is marked finished, and a further loop run changes no score.
\<close>

theorem scores_monotone_bounded_finish_witness:
  "0 < maxScore cfg1 \<and> game lobby1 = newGame cfg1 1 \<and>
   triggerStart cfg1 1 (1 / 2) lobby1 = (None, started1) \<and>
   scores (game (engineRun us0 cfg1 [Move alice UP, Loop [(1 / 2, [])]] started1)) ''alice'' = Some 1 \<and>
   scores (game (engineRun us0 cfg1 [Move alice UP, Loop [(1 / 2, [])]] started1)) ''bob'' = Some 0 \<and>
   scoresLe (scores (game (engineRun us0 cfg1 [Move alice UP, Loop [(1 / 2, [])]] started1)))
            (scores (game (engineRun us0 cfg1 ([Move alice UP, Loop [(1 / 2, [])]] @ [Loop [(1 / 2, [])]]) started1))) \<and>
   scoresBounded cfg1 (engineRun us0 cfg1 [Move alice UP, Loop [(1 / 2, [])]] started1) \<and>
   atMax cfg1 (engineRun us0 cfg1 [Move alice UP, Loop [(1 / 2, [])]] started1) \<and>
   hasFinished (game (engineRun us0 cfg1 [Move alice UP, Loop [(1 / 2, [])]] started1))"
proof -
  have p: "0 < maxScore cfg1" by (simp add: cfg1_def)
  have f: "game lobby1 = newGame cfg1 1" by (simp add: lobby1_def newLobby_def)
  have ne: "\<forall>j \<in> set [Move alice UP, Loop [(1 / 2, [])]]. \<not> external j"
    by (simp add: quiet_def)
  have sc: "scores (game (engineRun us0 cfg1 [Move alice UP, Loop [(1 / 2, [])]] started1)) ''alice'' = Some 1 \<and>
     scores (game (engineRun us0 cfg1 [Move alice UP, Loop [(1 / 2, [])]] started1)) ''bob'' = Some 0 \<and>
     hasFinished (game (engineRun us0 cfg1 [Move alice UP, Loop [(1 / 2, [])]] started1))"
    by (simp add: engineRun_def movePaddle_def eval_defs)
  show ?thesis
    using scores_monotone_bounded_finish[OF p f started1_start,
        of us0 "[Move alice UP, Loop [(1 / 2, [])]]" "Loop [(1 / 2, [])]"] p f started1_start ne sc
    by simp
qed

text \<open>
  The claim as it was stated fails on expiry: the expiry sweep calls \<^verbatim>\<open>triggerFinish\<close>
  on the started sample lobby, which marks the engine finished while both scores are 0
  and \<^verbatim>\<open>maxScore\<close> is 1.
\<close>

theorem finished_without_max_score:
  "hasFinished (game (engineRun us0 cfg1 [Expire] started1)) \<and>
   scores (game (engineRun us0 cfg1 [Expire] started1)) ''alice'' = Some 0 \<and>
   scores (game (engineRun us0 cfg1 [Expire] started1)) ''bob'' = Some 0 \<and>
   maxScore cfg1 = 1 \<and>
   \<not> atMax cfg1 (engineRun us0 cfg1 [Expire] started1)"
  by (simp add: engineRun_def expireEffect_def atMax_def triggerFinish_def eval_defs)

section \<open>The countdown and the stop flag\<close>

lemma countDownLoop_cleared: "cleared cd \<Longrightarrow> countDownLoop cd l = l"
  by (subst countDownLoop.simps) simp

lemma countDownLoop_step:
  "\<not> cleared cd \<Longrightarrow>
   countDownLoop cd l = countDownLoop (fst (countDownTick cd l)) (snd (countDownTick cd l))"
  by (subst countDownLoop.simps) simp

text \<open>
  C10. When the interval's callback runs with seconds remaining and finds the stop flag
  set, it clears the interval and resolves the promise, and still sends one countdown
  event with the remaining seconds to every seated player; a callback after that does
  nothing more, and the countdown as a whole ends with this callback.
\<close>

theorem countdown_stop_emits_once_more:
  assumes running: "\<not> cleared cd" and left: "0 < remainingSeconds cd"
    and stopped: "stop (game l)"
  shows "cleared (fst (countDownTick cd l)) \<and> resolved (fst (countDownTick cd l)) \<and>
         outbox (snd (countDownTick cd l))
           = outbox l @ map (\<lambda>c. (socket_id c, GameCountdown (remainingSeconds cd))) (players l) \<and>
         countDownTick (fst (countDownTick cd l)) (snd (countDownTick cd l))
           = countDownTick cd l \<and>
         countDownLoop cd l = snd (countDownTick cd l)"
proof -
  have t: "countDownTick cd l =
      (cd\<lparr>cleared := True, resolved := True, remainingSeconds := remainingSeconds cd - 1\<rparr>,
       emitCountdown (remainingSeconds cd) l)"
    using running left stopped by (simp add: countDownTick_def Let_def)
  have c: "cleared (fst (countDownTick cd l))" by (simp add: t)
  have again: "countDownTick (fst (countDownTick cd l)) (snd (countDownTick cd l))
           = countDownTick cd l"
    using c by (simp add: countDownTick_def[of "fst (countDownTick cd l)"])
  have loop: "countDownLoop cd l = snd (countDownTick cd l)"
    using countDownLoop_step[OF running, of l] countDownLoop_cleared[OF c] by simp
  show ?thesis using c again loop by (simp add: t emitCountdown_def)
qed

text \<open>
  With the stop flag set and 2 seconds remaining, the callback resolves the promise and
  sends 2 to both players; a countdown of 3 seconds on the stopped lobby sends 3 and 2
  and ends, where an undisturbed one would go on to 1 and 0.
\<close>

theorem countdown_stop_emits_once_more_witness:
  "\<not> cleared \<lparr>remainingSeconds = 2, cleared = False, resolved = False\<rparr> \<and>
   0 < remainingSeconds \<lparr>remainingSeconds = 2, cleared = False, resolved = False\<rparr> \<and>
   stop (game lobbyStopped) \<and>
   resolved (fst (countDownTick \<lparr>remainingSeconds = 2, cleared = False, resolved = False\<rparr> lobbyStopped)) \<and>
   outbox (snd (countDownTick \<lparr>remainingSeconds = 2, cleared = False, resolved = False\<rparr> lobbyStopped))
     = [(''sa'', GameCountdown 2), (''sb'', GameCountdown 2)] \<and>
   outbox (countDown 3 lobbyStopped)
     = [(''sa'', GameCountdown 3), (''sb'', GameCountdown 3),
        (''sa'', GameCountdown 2), (''sb'', GameCountdown 2)]"
proof -
  have s: "stop (game lobbyStopped)" by (simp add: lobbyStopped_def)
  have o: "outbox lobbyStopped = [] \<and> players lobbyStopped = [alice, bob]"
    by (simp add: lobbyStopped_def lobby0_def newLobby_def)
  have st: "countDownStart 3 lobbyStopped =
     (\<lparr>remainingSeconds = 2, cleared = False, resolved = False\<rparr>, emitCountdown 3 lobbyStopped)"
    by (simp add: countDownStart_def)
  have s': "stop (game (emitCountdown 3 lobbyStopped))" using s by (simp add: emitCountdown_def)
  have cd: "outbox (countDown 3 lobbyStopped)
     = [(''sa'', GameCountdown 3), (''sb'', GameCountdown 3),
        (''sa'', GameCountdown 2), (''sb'', GameCountdown 2)]"
    using countdown_stop_emits_once_more
            [of "\<lparr>remainingSeconds = 2, cleared = False, resolved = False\<rparr>"
                "emitCountdown 3 lobbyStopped"] s' o
    by (simp add: countDown_def st emitCountdown_def alice_def bob_def)
  show ?thesis
    using countdown_stop_emits_once_more
            [of "\<lparr>remainingSeconds = 2, cleared = False, resolved = False\<rparr>" lobbyStopped] s o cd
    by (simp add: alice_def bob_def)
qed

section \<open>Invitations\<close>

text \<open>
  C8, as amended. Whenever \<^verbatim>\<open>inviteToLobby\<close> throws, the manager's state (every invite
  list and the notifications handed to the chat gateway) is what it was before the call.
  When the target has blocked the inviter the call throws; the exception is
  \<^verbatim>\<open>You cannot invite this user\<close> when no earlier check fails, that is when the inviter
  does not invite themself, is in a lobby that is not full, and the target's id is
  neither a key of the seat map nor in the invite list.
\<close>

theorem invite_rejections_change_nothing:
  "(fst (inviteToLobby us st c userId) \<noteq> None \<longrightarrow> snd (inviteToLobby us st c userId) = st) \<and>
   (findOneWithRelations us userId = Some user \<and> userIdInList (blockedUsers user) (data_id c)
      \<longrightarrow> fst (inviteToLobby us st c userId) \<noteq> None \<and> snd (inviteToLobby us st c userId) = st) \<and>
   (findOneWithRelations us userId = Some user \<and> userIdInList (blockedUsers user) (data_id c)
      \<and> data_id c \<noteq> userId \<and> clientLobby st c = Some l \<and> length (players l) < MAX_PLAYERS
      \<and> userId \<notin> socket_id ` set (players l) \<and> userId \<notin> set (invitedPlayers l)
      \<longrightarrow> inviteToLobby us st c userId = (Some (WsException ''You cannot invite this user''), st))"
  by (auto simp: inviteToLobby_def split: option.splits)

text \<open>
  \<open>alice\<close>, alone in her Custom lobby, invites \<open>dave\<close>, who has blocked her.
\<close>

theorem invite_rejections_change_nothing_witness:
  "findOneWithRelations usBlock ''dave'' = Some \<lparr>user_id = ''dave'', blockedUsers = [''alice'', ''carol'']\<rparr> \<and>
   userIdInList [''alice'', ''carol''] (data_id alice) \<and>
   data_id alice \<noteq> ''dave'' \<and> clientLobby mgrInvite alice = Some lobbyC \<and>
   length (players lobbyC) < MAX_PLAYERS \<and> ''dave'' \<notin> socket_id ` set (players lobbyC) \<and>
   ''dave'' \<notin> set (invitedPlayers lobbyC) \<and>
   inviteToLobby usBlock mgrInvite alice ''dave''
     = (Some (WsException ''You cannot invite this user''), mgrInvite)"
proof -
  have a: "findOneWithRelations usBlock ''dave''
      = Some \<lparr>user_id = ''dave'', blockedUsers = [''alice'', ''carol'']\<rparr>"
    by (simp add: usBlock_def)
  have b: "userIdInList (blockedUsers \<lparr>user_id = ''dave'', blockedUsers = [''alice'', ''carol'']\<rparr>)
      (data_id alice)"
    by (simp add: userIdInList_def alice_def)
  have c: "data_id alice \<noteq> ''dave''" by (simp add: alice_def)
  have d: "clientLobby mgrInvite alice = Some lobbyC"
    by (simp add: clientLobby_def mgrInvite_def alice_def)
  have e: "length (players lobbyC) < MAX_PLAYERS" "''dave'' \<notin> socket_id ` set (players lobbyC)"
    "''dave'' \<notin> set (invitedPlayers lobbyC)"
    by (simp_all add: lobbyC_def newLobby_def MAX_PLAYERS_def alice_def)
  show ?thesis
    using invite_rejections_change_nothing[of usBlock mgrInvite alice "''dave''"
        "\<lparr>user_id = ''dave'', blockedUsers = [''alice'', ''carol'']\<rparr>" lobbyC] a b c d e
    by simp
qed

text \<open>
  The claim as it was stated fails where an earlier check throws first: \<open>carol\<close>, who is
  in no lobby, and \<open>alice\<close> in a full lobby both invite \<open>dave\<close>, who has blocked them,
  and get \<^verbatim>\<open>You are not in a lobby\<close> and \<^verbatim>\<open>Lobby already full\<close>.
\<close>

theorem blocked_invite_rejected_for_another_reason:
  "findOneWithRelations usBlock ''dave'' = Some \<lparr>user_id = ''dave'', blockedUsers = [''alice'', ''carol'']\<rparr> \<and>
   userIdInList [''alice'', ''carol''] (data_id carol) \<and>
   inviteToLobby usBlock mgrInvite carol ''dave''
     = (Some (WsException ''You are not in a lobby''), mgrInvite) \<and>
   userIdInList [''alice'', ''carol''] (data_id alice) \<and>
   clientLobby mgrFull alice = Some lobbyFull \<and>
   inviteToLobby usBlock mgrFull alice ''dave''
     = (Some (WsException ''Lobby already full''), mgrFull)"
  by (simp add: usBlock_def userIdInList_def carol_def alice_def bob_def inviteToLobby_def
      clientLobby_def mgrInvite_def mgrFull_def lobbyFull_def MAX_PLAYERS_def)

text \<open>
  C3. \<open>alice\<close>, alone in her Custom lobby, invites \<open>dave\<close> through the chat:
  \<^verbatim>\<open>inviteToLobbyThroughChat\<close> succeeds and appends \<open>alice\<close>, the inviter's id, to the
  invite list, although \<open>dave\<close> has blocked her. On the same state \<^verbatim>\<open>inviteToLobby\<close>
  rejects the invite of the user who blocked her, and with a user who did not it appends
  \<open>dave\<close>, the target's id.
\<close>

theorem chat_invite_appends_the_inviter:
  "fst (inviteToLobbyThroughChat mgrInvite \<lparr>user_id = ''alice'', blockedUsers = []\<rparr> ''dave'')
     = Inr ''LC'' \<and>
   map_option invitedPlayers
     (heap (snd (inviteToLobbyThroughChat mgrInvite \<lparr>user_id = ''alice'', blockedUsers = []\<rparr> ''dave''))
        ''LC'') = Some [''alice''] \<and>
   findOneWithRelations usBlock ''dave''
     = Some \<lparr>user_id = ''dave'', blockedUsers = [''alice'', ''carol'']\<rparr> \<and>
   inviteToLobby usBlock mgrInvite alice ''dave''
     = (Some (WsException ''You cannot invite this user''), mgrInvite) \<and>
   map_option invitedPlayers (heap (snd (inviteToLobby us0 mgrInvite alice ''dave'')) ''LC'')
     = Some [''dave'']"
  by (simp add: inviteToLobbyThroughChat_def inviteToLobby_def lobbiesValues_def mgrInvite_def
      lobbyC_def newLobby_def alice_def MAX_PLAYERS_def userIdInList_def onLobby_def usBlock_def
      us0_def clientLobby_def)

section \<open>The matchmaking queue\<close>

lemma tryToCreateLobby_short:
  "length (playerQueue st) < MAX_PLAYERS \<Longrightarrow> tryToCreateLobby cfg cr st = st"
  by (simp add: tryToCreateLobby_def)

lemma tryToCreateLobby_fill:
  assumes q: "playerQueue st = a # b # rest" and ab: "socket_id a \<noteq> socket_id b"
  shows "tryToCreateLobby cfg cr st =
           st\<lparr>playerQueue := rest,
              lobbies := (if new_id cr \<in> set (lobbies st) then lobbies st
                          else lobbies st @ [new_id cr]),
              heap := (heap st)(new_id cr \<mapsto> (newLobby cfg cr Queued)\<lparr>players := [a, b]\<rparr>),
              dataLobby := (dataLobby st)(socket_id a \<mapsto> new_id cr, socket_id b \<mapsto> new_id cr)\<rparr>"
  using q ab
  by (simp add: tryToCreateLobby_def MAX_PLAYERS_def Let_def lobbiesSet_def addPlayer_def
      onLobby_def seatSet_def newLobby_def defaultMode_def)

text \<open>
  C5. \<^verbatim>\<open>addPlayerToQueue\<close> rejects a socket that is in a lobby, and one that is already in
  the queue, and changes nothing then. Otherwise the socket is appended; when the queue
  is still shorter than 2 nothing else happens, and when it has reached 2 (with sockets
  of distinct ids and an unused lobby id) its first 2 entries, in queue order, become the
  seated players of one new registered lobby in Queued mode and have their
  back-reference set to it, and the queue keeps the entries behind them in their order.
\<close>

theorem enqueue_rejects_or_fills:
  fixes st :: LobbyManager and c :: client
  defines "q \<equiv> playerQueue st @ [c]"
  shows "(clientLobby st c \<noteq> None \<longrightarrow>
            addPlayerToQueue cfg cr st c
              = (Some (WsException ''You are already in a lobby, leave it first''), st)) \<and>
         (clientLobby st c = None \<and> c \<in> set (playerQueue st) \<longrightarrow>
            addPlayerToQueue cfg cr st c = (Some (WsException ''You are already in queue''), st)) \<and>
         (clientLobby st c = None \<and> c \<notin> set (playerQueue st) \<and> length q < 2 \<longrightarrow>
            addPlayerToQueue cfg cr st c = (None, st\<lparr>playerQueue := q\<rparr>)) \<and>
         (clientLobby st c = None \<and> c \<notin> set (playerQueue st) \<and> 2 \<le> length q
            \<and> distinct (map socket_id q) \<and> new_id cr \<notin> set (lobbies st) \<longrightarrow>
            addPlayerToQueue cfg cr st c
              = (None, st\<lparr>playerQueue := drop 2 q,
                          lobbies := lobbies st @ [new_id cr],
                          heap := (heap st)(new_id cr \<mapsto>
                                     (newLobby cfg cr Queued)\<lparr>players := take 2 q\<rparr>),
                          dataLobby := (dataLobby st)(socket_id (q ! 0) \<mapsto> new_id cr,
                                                      socket_id (q ! 1) \<mapsto> new_id cr)\<rparr>))"
proof -
  have A: "clientLobby st c \<noteq> None \<longrightarrow>
            addPlayerToQueue cfg cr st c
              = (Some (WsException ''You are already in a lobby, leave it first''), st)"
    by (simp add: addPlayerToQueue_def)
  have B: "clientLobby st c = None \<and> c \<in> set (playerQueue st) \<longrightarrow>
            addPlayerToQueue cfg cr st c = (Some (WsException ''You are already in queue''), st)"
    by (simp add: addPlayerToQueue_def)
  have C: "clientLobby st c = None \<and> c \<notin> set (playerQueue st) \<and> length q < 2 \<longrightarrow>
            addPlayerToQueue cfg cr st c = (None, st\<lparr>playerQueue := q\<rparr>)"
    using tryToCreateLobby_short[of "st\<lparr>playerQueue := q\<rparr>" cfg cr]
    by (simp add: addPlayerToQueue_def q_def MAX_PLAYERS_def)
  have D: "clientLobby st c = None \<and> c \<notin> set (playerQueue st) \<and> 2 \<le> length q
            \<and> distinct (map socket_id q) \<and> new_id cr \<notin> set (lobbies st) \<longrightarrow>
            addPlayerToQueue cfg cr st c
              = (None, st\<lparr>playerQueue := drop 2 q,
                          lobbies := lobbies st @ [new_id cr],
                          heap := (heap st)(new_id cr \<mapsto>
                                     (newLobby cfg cr Queued)\<lparr>players := take 2 q\<rparr>),
                          dataLobby := (dataLobby st)(socket_id (q ! 0) \<mapsto> new_id cr,
                                                      socket_id (q ! 1) \<mapsto> new_id cr)\<rparr>)"
  proof (intro impI, elim conjE)
    assume h: "clientLobby st c = None" "c \<notin> set (playerQueue st)" "2 \<le> length q"
      "distinct (map socket_id q)" "new_id cr \<notin> set (lobbies st)"
    obtain a b rest where qq: "q = a # b # rest"
      using h(3) by (cases q; cases "tl q") auto
    have ab: "socket_id a \<noteq> socket_id b" using h(4) qq by auto
    have "tryToCreateLobby cfg cr (st\<lparr>playerQueue := q\<rparr>) =
           st\<lparr>playerQueue := rest,
              lobbies := lobbies st @ [new_id cr],
              heap := (heap st)(new_id cr \<mapsto> (newLobby cfg cr Queued)\<lparr>players := [a, b]\<rparr>),
              dataLobby := (dataLobby st)(socket_id a \<mapsto> new_id cr, socket_id b \<mapsto> new_id cr)\<rparr>"
      using tryToCreateLobby_fill[of "st\<lparr>playerQueue := q\<rparr>" a b rest cfg cr] qq ab h(5)
      by simp
    then show "addPlayerToQueue cfg cr st c
              = (None, st\<lparr>playerQueue := drop 2 q,
                          lobbies := lobbies st @ [new_id cr],
                          heap := (heap st)(new_id cr \<mapsto>
                                     (newLobby cfg cr Queued)\<lparr>players := take 2 q\<rparr>),
                          dataLobby := (dataLobby st)(socket_id (q ! 0) \<mapsto> new_id cr,
                                                      socket_id (q ! 1) \<mapsto> new_id cr)\<rparr>)"
      using h(1,2) qq by (simp add: addPlayerToQueue_def q_def[symmetric])
  qed
  show ?thesis using A B C D by blast
qed

text \<open>
  \<open>bob\<close> joins \<open>alice\<close> in the queue: the queue is emptied into the new lobby \<open>LQ\<close> with
  players \<open>alice\<close>, \<open>bob\<close>. \<open>dave\<close> joins a queue of three: \<open>alice\<close> and \<open>bob\<close> are
  seated and \<open>carol\<close>, \<open>dave\<close> stay queued. A queued socket and a seated one are
  rejected.
\<close>

theorem enqueue_rejects_or_fills_witness:
  "clientLobby mgrQueue1 bob = None \<and> bob \<notin> set (playerQueue mgrQueue1) \<and>
   2 \<le> length (playerQueue mgrQueue1 @ [bob]) \<and>
   distinct (map socket_id (playerQueue mgrQueue1 @ [bob])) \<and>
   new_id crQ \<notin> set (lobbies mgrQueue1) \<and>
   fst (addPlayerToQueue cfg0 crQ mgrQueue1 bob) = None \<and>
   playerQueue (snd (addPlayerToQueue cfg0 crQ mgrQueue1 bob)) = [] \<and>
   lobbies (snd (addPlayerToQueue cfg0 crQ mgrQueue1 bob)) = [''LQ''] \<and>
   heap (snd (addPlayerToQueue cfg0 crQ mgrQueue1 bob)) ''LQ''
     = Some ((newLobby cfg0 crQ Queued)\<lparr>players := [alice, bob]\<rparr>) \<and>
   playerQueue (snd (addPlayerToQueue cfg0 crQ mgrQueue3 dave)) = [carol, dave] \<and>
   map_option players (heap (snd (addPlayerToQueue cfg0 crQ mgrQueue3 dave)) ''LQ'')
     = Some [alice, bob] \<and>
   addPlayerToQueue cfg0 crQ mgrQueue3 bob
     = (Some (WsException ''You are already in queue''), mgrQueue3) \<and>
   addPlayerToQueue cfg0 crQ mgrInvite alice
     = (Some (WsException ''You are already in a lobby, leave it first''), mgrInvite)"
proof -
  have a: "clientLobby mgrQueue1 bob = None" "bob \<notin> set (playerQueue mgrQueue1)"
    "2 \<le> length (playerQueue mgrQueue1 @ [bob])"
    "distinct (map socket_id (playerQueue mgrQueue1 @ [bob]))"
    "new_id crQ \<notin> set (lobbies mgrQueue1)"
    by (simp_all add: clientLobby_def mgrQueue1_def alice_def bob_def crQ_def)
  have b: "clientLobby mgrQueue3 dave = None" "dave \<notin> set (playerQueue mgrQueue3)"
    "2 \<le> length (playerQueue mgrQueue3 @ [dave])"
    "distinct (map socket_id (playerQueue mgrQueue3 @ [dave]))"
    "new_id crQ \<notin> set (lobbies mgrQueue3)"
    by (simp_all add: clientLobby_def mgrQueue3_def alice_def bob_def carol_def dave_def crQ_def)
  have c: "clientLobby mgrQueue3 bob = None" "bob \<in> set (playerQueue mgrQueue3)"
    by (simp_all add: clientLobby_def mgrQueue3_def)
  have d: "clientLobby mgrInvite alice \<noteq> None"
    by (simp add: clientLobby_def mgrInvite_def alice_def)
  have q1: "playerQueue mgrQueue1 = [alice]" by (simp add: mgrQueue1_def)
  have q3: "playerQueue mgrQueue3 = [alice, bob, carol]" by (simp add: mgrQueue3_def)
  have l1: "lobbies mgrQueue1 = []" by (simp add: mgrQueue1_def)
  show ?thesis
    using enqueue_rejects_or_fills[of mgrQueue1 bob cfg0 crQ]
      enqueue_rejects_or_fills[of mgrQueue3 dave cfg0 crQ]
      enqueue_rejects_or_fills[of mgrQueue3 bob cfg0 crQ]
      enqueue_rejects_or_fills[of mgrInvite alice cfg0 crQ]
      a b c d
    by (simp add: q1 q3 l1 crQ_def)
qed

section \<open>Leaving a lobby\<close>

lemma leaveLobby_effect:
  assumes bref: "dataLobby st (socket_id c) = Some lid" and obj: "heap st lid = Some l"
    and ident: "lobby_id l = lid" and reg: "lid \<in> set (lobbies st)"
    and seated: "socket_id c \<in> socket_id ` set (players l)"
  shows "leaveLobby st c =
           (let st' = st\<lparr>heap := (heap st)(lid \<mapsto> leaveEffect c l),
                         dataLobby := (dataLobby st)(socket_id c := None)\<rparr>
            in if seatDelete c (players l) = [] then lobbiesDelete lid st' else st')"
    and "leaveLobbyOrThrow st c = (None, leaveLobby st c)"
proof -
  have cl: "clientLobby st c = Some l" using bref obj by (simp add: clientLobby_def)
  have lg: "lobbiesGet st (lobby_id l) = Some l" using obj ident reg by (simp add: lobbiesGet_def)
  have pl: "players (leaveEffect c l) = seatDelete c (players l)"
    by (simp add: leaveEffect_def Let_def triggerFinish_def dispatchToLobby_def sendEvent_def)
  show "leaveLobby st c =
           (let st' = st\<lparr>heap := (heap st)(lid \<mapsto> leaveEffect c l),
                         dataLobby := (dataLobby st)(socket_id c := None)\<rparr>
            in if seatDelete c (players l) = [] then lobbiesDelete lid st' else st')"
    using cl lg seated obj ident pl
    by (simp add: leaveLobby_def Let_def removePlayer_def onLobby_def seatedSockets_def
        leaveEffect_def lobbiesDelete_def)
  show "leaveLobbyOrThrow st c = (None, leaveLobby st c)"
    using cl lg seated by (simp add: leaveLobbyOrThrow_def leaveLobby_def Let_def)
qed

lemma triggerFinish_outbox:
  "outbox (triggerFinish l) =
     outbox l @ map (\<lambda>d. (socket_id d,
                  GameFinish (map_option (\<lambda>m. user_id (winner m)) (matchEntity (game l)))
                    (scoreOf l (player1 l)) (scoreOf l (player2 l)))) (players l)"
proof -
  define lf where "lf = l\<lparr>game := (game l)\<lparr>hasFinished := True\<rparr>\<rparr>"
  have a: "scoreOf lf (player1 lf) = scoreOf l (player1 l)"
    "scoreOf lf (player2 lf) = scoreOf l (player2 l)"
    using scoreOf_cong[of lf l] players_cong[of lf l] by (simp_all add: lf_def)
  have b: "(case matchEntity (game lf) of None \<Rightarrow> None | Some m \<Rightarrow> Some (user_id (winner m)))
      = map_option (\<lambda>m. user_id (winner m)) (matchEntity (game l))"
    by (cases "matchEntity (game l)") (simp_all add: lf_def)
  have "outbox (triggerFinish l) = outbox lf @ map (\<lambda>d. (socket_id d,
      GameFinish (case matchEntity (game lf) of None \<Rightarrow> None | Some m \<Rightarrow> Some (user_id (winner m)))
        (scoreOf lf (player1 lf)) (scoreOf lf (player2 lf)))) (players lf)"
    unfolding triggerFinish_def Let_def lf_def[symmetric] by (simp add: dispatchToLobby_def)
  then show ?thesis by (simp add: a b) (simp add: lf_def)
qed

lemma leaveEffect_outbox:
  "outbox (leaveEffect c l) =
     outbox l
     @ map (\<lambda>d. (socket_id d, GameMessage (data_username c @ '' left the lobby'')))
           (seatDelete c (players l))
     @ map (\<lambda>d. (socket_id d,
                  GameFinish (map_option (\<lambda>m. user_id (winner m)) (matchEntity (game l)))
                    (scoreOf l (player1 (l\<lparr>players := seatDelete c (players l)\<rparr>)))
                    (scoreOf l (player2 (l\<lparr>players := seatDelete c (players l)\<rparr>)))))
           (seatDelete c (players l))"
proof -
  define lr where "lr = l\<lparr>players := seatDelete c (players l)\<rparr>"
  define l2 where "l2 = sendEvent (map socket_id (players lr))
                 (GameMessage (data_username c @ '' left the lobby'')) lr"
  have e: "leaveEffect c l = triggerFinish l2"
    by (simp add: leaveEffect_def Let_def l2_def lr_def)
  have f: "players l2 = seatDelete c (players l)" "game l2 = game l"
    "outbox l2 = outbox l @ map (\<lambda>d. (socket_id d, GameMessage (data_username c @ '' left the lobby'')))
           (seatDelete c (players l))"
    by (simp_all add: l2_def lr_def sendEvent_def)
  have g: "player1 l2 = player1 lr" "player2 l2 = player2 lr"
    using players_cong[of l2 lr] f(1) by (simp_all add: lr_def)
  have h: "\<And>p. scoreOf l2 p = scoreOf l p" using scoreOf_cong[of l2 l] f(2) by simp
  show ?thesis
    unfolding e triggerFinish_outbox[of l2] by (simp add: f g h lr_def)
qed

text \<open>
  C2, as amended. When a socket that is seated in a registered lobby leaves, with
  \<^verbatim>\<open>leaveLobby\<close> or \<^verbatim>\<open>leaveLobbyOrThrow\<close> alike: its seat is freed; every remaining member
  is sent the departure message and then the finish event; the engine is marked
  finished, whatever the number of seats still taken; and the lobby is removed from the
  registry exactly when no seat is taken any more.
\<close>

theorem leave_always_finishes_engine:
  assumes bref: "dataLobby st (socket_id c) = Some lid" and obj: "heap st lid = Some l"
    and ident: "lobby_id l = lid" and reg: "lid \<in> set (lobbies st)"
    and seated: "socket_id c \<in> socket_id ` set (players l)"
  shows "leaveLobbyOrThrow st c = (None, leaveLobby st c) \<and>
         heap (leaveLobby st c) lid = Some (leaveEffect c l) \<and>
         players (leaveEffect c l) = seatDelete c (players l) \<and>
         hasFinished (game (leaveEffect c l)) \<and>
         outbox (leaveEffect c l) =
           outbox l
           @ map (\<lambda>d. (socket_id d, GameMessage (data_username c @ '' left the lobby'')))
                 (seatDelete c (players l))
           @ map (\<lambda>d. (socket_id d,
                  GameFinish (map_option (\<lambda>m. user_id (winner m)) (matchEntity (game l)))
                    (scoreOf l (player1 (l\<lparr>players := seatDelete c (players l)\<rparr>)))
                    (scoreOf l (player2 (l\<lparr>players := seatDelete c (players l)\<rparr>)))))
                 (seatDelete c (players l)) \<and>
         lobbies (leaveLobby st c)
           = (if seatDelete c (players l) = [] then removeAll lid (lobbies st) else lobbies st)"
proof -
  note e = leaveLobby_effect[OF bref obj ident reg seated]
  have h: "heap (leaveLobby st c) lid = Some (leaveEffect c l)"
    by (simp add: e(1) Let_def lobbiesDelete_def)
  have r: "lobbies (leaveLobby st c)
           = (if seatDelete c (players l) = [] then removeAll lid (lobbies st) else lobbies st)"
    by (simp add: e(1) Let_def lobbiesDelete_def)
  have p: "players (leaveEffect c l) = seatDelete c (players l) \<and> hasFinished (game (leaveEffect c l))"
    by (simp add: leaveEffect_def Let_def triggerFinish_def dispatchToLobby_def sendEvent_def)
  show ?thesis using e(2) h r p leaveEffect_outbox[of c l] by simp
qed

text \<open>
  \<open>alice\<close> leaves the started lobby she shares with \<open>bob\<close>: \<open>bob\<close> stays seated, the
  lobby stays registered and its engine is marked finished. She leaves the Custom lobby
  she is alone in: the lobby is removed from the registry.
\<close>

lemma mgrStarted_alice:
  "dataLobby mgrStarted (socket_id alice) = Some ''L1''" "heap mgrStarted ''L1'' = Some started1"
  "lobby_id started1 = ''L1''" "''L1'' \<in> set (lobbies mgrStarted)"
  "socket_id alice \<in> socket_id ` set (players started1)"
  by (simp_all add: mgrStarted_def alice_def started1_mode started1_players)

lemma mgrInvite_alice:
  "dataLobby mgrInvite (socket_id alice) = Some ''LC''" "heap mgrInvite ''LC'' = Some lobbyC"
  "lobby_id lobbyC = ''LC''" "''LC'' \<in> set (lobbies mgrInvite)"
  "socket_id alice \<in> socket_id ` set (players lobbyC)"
  by (simp_all add: mgrInvite_def alice_def lobbyC_def newLobby_def)

theorem leave_always_finishes_engine_witness:
  "dataLobby mgrStarted (socket_id alice) = Some ''L1'' \<and> heap mgrStarted ''L1'' = Some started1 \<and>
   lobby_id started1 = ''L1'' \<and> ''L1'' \<in> set (lobbies mgrStarted) \<and>
   socket_id alice \<in> socket_id ` set (players started1) \<and>
   leaveLobbyOrThrow mgrStarted alice = (None, leaveLobby mgrStarted alice) \<and>
   heap (leaveLobby mgrStarted alice) ''L1'' = Some (leaveEffect alice started1) \<and>
   players (leaveEffect alice started1) = [bob] \<and>
   hasFinished (game (leaveEffect alice started1)) \<and>
   lobbies (leaveLobby mgrStarted alice) = [''L1''] \<and>
   players (leaveEffect alice lobbyC) = [] \<and>
   lobbies (leaveLobby mgrInvite alice) = []"
proof -
  have s: "seatDelete alice (players started1) = [bob]"
    by (simp add: seatDelete_def started1_players alice_def bob_def)
  have t: "seatDelete alice (players lobbyC) = []"
    by (simp add: seatDelete_def lobbyC_def newLobby_def)
  show ?thesis
    using leave_always_finishes_engine[OF mgrStarted_alice]
      leave_always_finishes_engine[OF mgrInvite_alice] mgrStarted_alice s t
    by (simp add: mgrStarted_def mgrInvite_def)
qed

text \<open>
  The claim as it was stated fails when a seat remains: the engine of the started lobby
  was running, \<open>alice\<close> leaves, \<open>bob\<close> remains seated in the registered lobby, and the
  engine is marked finished and \<open>bob\<close> is sent a finish event after the message.
\<close>

theorem leave_with_seat_left_finishes_engine:
  "\<not> hasFinished (game started1) \<and>
   heap mgrStarted ''L1'' = Some started1 \<and>
   seatedSockets (leaveLobby mgrStarted alice) ''L1'' = [''sb''] \<and>
   ''L1'' \<in> set (lobbies (leaveLobby mgrStarted alice)) \<and>
   map_option (\<lambda>l. hasFinished (game l)) (heap (leaveLobby mgrStarted alice) ''L1'') = Some True \<and>
   map_option outbox (heap (leaveLobby mgrStarted alice) ''L1'')
     = Some (outbox started1 @ [(''sb'', GameMessage ''Alice left the lobby''),
                                (''sb'', GameFinish None (Some 0) None)])"
  by (simp add: leaveLobby_def clientLobby_def lobbiesGet_def mgrStarted_def removePlayer_def
      onLobby_def seatedSockets_def seatDelete_def sendEvent_def triggerFinish_def
      dispatchToLobby_def lobbiesDelete_def scoreOf_def player1_def player2_def Let_def
      started1_game started1_players started1_mode alice_def bob_def)

section \<open>The finish event\<close>














end
